theory Spec2Isabelle
  imports Main
begin

section \<open>Values of the loaded documents\<close>

text \<open>
  The ingestion script works on what the YAML loader returns: nested Python dictionaries
  and lists over scalars. Scalars are the null value, booleans, integers, strings and
  dates; floating-point scalars are left out of the model. A dictionary is an association
  list in insertion order; its keys are hashable scalars. Strings are lists of characters
  read as code points below 256.
\<close>

datatype py_error =
  AttributeError | IndexError | KeyError | TypeError | ValueError | OSError | YAMLError

text \<open>Sequencing of computations that may raise: the first exception ends the computation.\<close>

definition err_bind :: "py_error + 'a \<Rightarrow> ('a \<Rightarrow> py_error + 'b) \<Rightarrow> py_error + 'b" where
  "err_bind m f = (case m of Inl e \<Rightarrow> Inl e | Inr x \<Rightarrow> f x)"

datatype ykey = KNull | KBool bool | KInt int | KStr string

datatype yval =
    YNull
  | YBool bool
  | YInt int
  | YStr string
  | YDate int int int
  | YList "yval list"
  | YDict "(ykey \<times> yval) list"

text \<open>Python's truth value of an object, as tested by \<open>if x\<close>, \<open>not x\<close> and \<open>x or y\<close>.\<close>

fun truthy :: "yval \<Rightarrow> bool" where
  "truthy YNull = False"
| "truthy (YBool b) = b"
| "truthy (YInt i) = (i \<noteq> 0)"
| "truthy (YStr s) = (s \<noteq> [])"
| "truthy (YDate y m d) = True"
| "truthy (YList xs) = (xs \<noteq> [])"
| "truthy (YDict kvs) = (kvs \<noteq> [])"

definition py_or :: "yval \<Rightarrow> yval \<Rightarrow> yval" where
  "py_or a b = (if truthy a then a else b)"

text \<open>
  Dictionary keys compare as Python compares them: \<open>True\<close> and \<open>1\<close>, \<open>False\<close> and \<open>0\<close>
  are the same key; every other pair of scalars of different kinds is different.
\<close>

fun key_norm :: "ykey \<Rightarrow> ykey" where
  "key_norm (KBool b) = KInt (if b then 1 else 0)"
| "key_norm k = k"

fun dict_find :: "(ykey \<times> yval) list \<Rightarrow> ykey \<Rightarrow> yval option" where
  "dict_find [] k = None"
| "dict_find ((k', v) # kvs) k =
     (if key_norm k' = key_norm k then Some v else dict_find kvs k)"

text \<open>\<open>d.get(k, default)\<close> on a dictionary \<open>d\<close>.\<close>

definition dict_get :: "(ykey \<times> yval) list \<Rightarrow> ykey \<Rightarrow> yval \<Rightarrow> yval" where
  "dict_get d k dflt = (case dict_find d k of None \<Rightarrow> dflt | Some v \<Rightarrow> v)"

definition dget :: "(ykey \<times> yval) list \<Rightarrow> string \<Rightarrow> yval \<Rightarrow> yval" where
  "dget d k dflt = dict_get d (KStr k) dflt"

text \<open>
  The methods \<open>get\<close>, \<open>keys\<close> and \<open>items\<close> exist on dictionaries only: calling one of
  them on any other value of the model raises \<open>AttributeError\<close>.
\<close>

fun as_dict :: "yval \<Rightarrow> py_error + (ykey \<times> yval) list" where
  "as_dict (YDict d) = Inr d"
| "as_dict v = Inl AttributeError"

text \<open>
  \<open>k = list(x.keys())[0]\<close> followed by \<open>x[k]\<close>: the first key of a dictionary and the
  value stored under it. An empty dictionary has no first key.
\<close>

fun first_item :: "yval \<Rightarrow> py_error + (ykey \<times> yval)" where
  "first_item (YDict []) = Inl IndexError"
| "first_item (YDict ((k, v) # kvs)) = Inr (k, v)"
| "first_item v = Inl AttributeError"

fun key_val :: "ykey \<Rightarrow> yval" where
  "key_val KNull = YNull"
| "key_val (KBool b) = YBool b"
| "key_val (KInt i) = YInt i"
| "key_val (KStr s) = YStr s"

text \<open>
  \<open>x[i]\<close> for the literal indices \<open>0\<close> and \<open>1\<close> the script uses: lists and strings are
  indexed by position, a dictionary is looked up at the key \<open>i\<close>, anything else is not
  subscriptable.
\<close>

fun py_index :: "yval \<Rightarrow> nat \<Rightarrow> py_error + yval" where
  "py_index (YList xs) i = (if i < length xs then Inr (xs ! i) else Inl IndexError)"
| "py_index (YStr s) i = (if i < length s then Inr (YStr [s ! i]) else Inl IndexError)"
| "py_index (YDict d) i =
     (case dict_find d (KInt (int i)) of None \<Rightarrow> Inl KeyError | Some v \<Rightarrow> Inr v)"
| "py_index v i = Inl TypeError"

fun py_len :: "yval \<Rightarrow> py_error + nat" where
  "py_len (YList xs) = Inr (length xs)"
| "py_len (YStr s) = Inr (length s)"
| "py_len (YDict d) = Inr (length d)"
| "py_len v = Inl TypeError"

text \<open>The elements a \<open>for\<close> loop visits: list items, characters, dictionary keys.\<close>

fun py_iter :: "yval \<Rightarrow> py_error + yval list" where
  "py_iter (YList xs) = Inr xs"
| "py_iter (YStr s) = Inr (map (\<lambda>c. YStr [c]) s)"
| "py_iter (YDict d) = Inr (map (key_val \<circ> fst) d)"
| "py_iter v = Inl TypeError"

text \<open>\<open>x == n\<close> against an integer literal: booleans are the integers 0 and 1.\<close>

fun py_eq_int :: "yval \<Rightarrow> int \<Rightarrow> bool" where
  "py_eq_int (YInt i) n = (i = n)"
| "py_eq_int (YBool b) n = ((if b then 1 else 0) = n)"
| "py_eq_int v n = False"

text \<open>\<open>acc += x\<close> on an integer accumulator.\<close>

fun py_add_int :: "int \<Rightarrow> yval \<Rightarrow> py_error + int" where
  "py_add_int acc (YInt i) = Inr (acc + i)"
| "py_add_int acc (YBool b) = Inr (acc + (if b then 1 else 0))"
| "py_add_int acc v = Inl TypeError"

section \<open>Strings and integers\<close>

definition is_digit :: "char \<Rightarrow> bool" where
  "is_digit c = (48 \<le> (of_char c :: nat) \<and> (of_char c :: nat) \<le> 57)"

definition digit_val :: "char \<Rightarrow> nat" where
  "digit_val c = of_char c - 48"

definition digit_char :: "nat \<Rightarrow> char" where
  "digit_char d = char_of (48 + d)"

text \<open>
  The characters \<open>int\<close> skips at both ends of its argument: tab to carriage return, the
  space, and the two blanks above 127 (next line, no-break space).
\<close>

definition is_space :: "char \<Rightarrow> bool" where
  "is_space c = (let n = (of_char c :: nat) in
     (9 \<le> n \<and> n \<le> 13) \<or> n = 32 \<or> n = 133 \<or> n = 160)"

definition strip :: "string \<Rightarrow> string" where
  "strip s = rev (dropWhile is_space (rev (dropWhile is_space s)))"

text \<open>
  Decimal digits, where a single underscore may stand between two digits. The accumulator
  holds the value read so far; the character before the rest was a digit.
\<close>

fun parse_digits :: "nat \<Rightarrow> string \<Rightarrow> nat option" where
  "parse_digits acc [] = Some acc"
| "parse_digits acc (c # cs) =
     (if is_digit c then parse_digits (acc * 10 + digit_val c) cs
      else if c = CHR ''_'' then
        (case cs of
           [] \<Rightarrow> None
         | d # ds \<Rightarrow> if is_digit d then parse_digits (acc * 10 + digit_val d) ds else None)
      else None)"

definition parse_unsigned :: "string \<Rightarrow> nat option" where
  "parse_unsigned s =
     (case s of
        [] \<Rightarrow> None
      | c # cs \<Rightarrow> if is_digit c then parse_digits (digit_val c) cs else None)"

text \<open>
  \<open>int(s)\<close> on a string: surrounding whitespace, an optional sign, decimal digits. The
  interpreter's configurable limit on the number of digits is not modelled.
\<close>

definition py_int :: "string \<Rightarrow> py_error + int" where
  "py_int s =
     (case strip s of
        [] \<Rightarrow> Inl ValueError
      | c # cs \<Rightarrow>
          if c = CHR ''-'' then
            (case parse_unsigned cs of None \<Rightarrow> Inl ValueError | Some n \<Rightarrow> Inr (- int n))
          else if c = CHR ''+'' then
            (case parse_unsigned cs of None \<Rightarrow> Inl ValueError | Some n \<Rightarrow> Inr (int n))
          else
            (case parse_unsigned (c # cs) of None \<Rightarrow> Inl ValueError | Some n \<Rightarrow> Inr (int n)))"

text \<open>\<open>s.split(c)\<close> with a one-character separator; the result is never empty.\<close>

fun split_on :: "char \<Rightarrow> string \<Rightarrow> string list" where
  "split_on c [] = [[]]"
| "split_on c (x # xs) =
     (if x = c then [] # split_on c xs
      else (x # hd (split_on c xs)) # tl (split_on c xs))"

text \<open>\<open>str(n)\<close> of an integer: decimal digits, most significant first, a minus sign if negative.\<close>

fun str_nat :: "nat \<Rightarrow> string" where
  "str_nat n = (if n < 10 then [digit_char n] else str_nat (n div 10) @ [digit_char (n mod 10)])"

declare str_nat.simps [simp del]

definition str_int :: "int \<Rightarrow> string" where
  "str_int i = (if i < 0 then CHR ''-'' # str_nat (nat (- i)) else str_nat (nat i))"

section \<open>Phase classifier and over/ball parser\<close>

definition get_phase :: "int \<Rightarrow> string" where
  "get_phase over_number =
     (if over_number \<le> 5 then ''powerplay''
      else if over_number \<le> 14 then ''middle''
      else ''death'')"

text \<open>
  \<open>parse_over_ball\<close> receives the label after \<open>str\<close> has been applied to the key of the
  delivery entry (see \<open>key_str\<close> below for the keys of the model).
\<close>

definition parse_over_ball :: "string \<Rightarrow> py_error + (int \<times> int)" where
  "parse_over_ball over_ball_key =
     (let parts = split_on CHR ''.'' over_ball_key in
      case py_int (hd parts) of
        Inl e \<Rightarrow> Inl e
      | Inr over_num \<Rightarrow>
          if length parts > 1 then
            (case py_int (parts ! 1) of
               Inl e \<Rightarrow> Inl e
             | Inr ball_num \<Rightarrow> Inr (over_num, ball_num))
          else Inr (over_num, 1))"

section \<open>Equality of values\<close>

text \<open>
  \<open>x == y\<close>: booleans compare as the integers 0 and 1, lists compare element by element,
  dictionaries compare as mappings (same keys, equal values, in any order), and values of
  different kinds are unequal. \<open>dict_keys\<close> lists the keys of a dictionary once each.
\<close>

fun dict_keys :: "(ykey \<times> yval) list \<Rightarrow> ykey list" where
  "dict_keys [] = []"
| "dict_keys ((k, v) # kvs) = key_norm k # filter (\<lambda>k'. k' \<noteq> key_norm k) (dict_keys kvs)"

fun py_eq :: "yval \<Rightarrow> yval \<Rightarrow> bool" where
  "py_eq YNull YNull = True"
| "py_eq (YBool a) (YBool b) = (a = b)"
| "py_eq (YBool a) (YInt b) = ((if a then 1 else 0) = b)"
| "py_eq (YInt a) (YBool b) = (a = (if b then 1 else 0))"
| "py_eq (YInt a) (YInt b) = (a = b)"
| "py_eq (YStr a) (YStr b) = (a = b)"
| "py_eq (YDate y m d) (YDate y' m' d') = (y = y' \<and> m = m' \<and> d = d')"
| "py_eq (YList xs) (YList ys) =
     list_all2 py_eq xs ys"
| "py_eq (YDict a) (YDict b) =
     (length (dict_keys a) = length (dict_keys b) \<and>
      list_all (\<lambda>(k, v). case dict_find b k of None \<Rightarrow> False
                          | Some v' \<Rightarrow> if dict_find a k = Some v then py_eq v v' else True) a)"
| "py_eq v w = False"

section \<open>Field accessor\<close>

text \<open>
  The keys are arbitrary objects. \<open>d.get(key, default)\<close> hashes the key first: a list
  or a dictionary is unhashable and raises \<open>TypeError\<close>. A date is hashable, and no
  dictionary of the model has a date among its keys.
\<close>

fun py_dict_get :: "(ykey \<times> yval) list \<Rightarrow> yval \<Rightarrow> yval \<Rightarrow> py_error + yval" where
  "py_dict_get d YNull dflt = Inr (dict_get d KNull dflt)"
| "py_dict_get d (YBool b) dflt = Inr (dict_get d (KBool b) dflt)"
| "py_dict_get d (YInt i) dflt = Inr (dict_get d (KInt i) dflt)"
| "py_dict_get d (YStr s) dflt = Inr (dict_get d (KStr s) dflt)"
| "py_dict_get d (YDate y m dd) dflt = Inr dflt"
| "py_dict_get d (YList xs) dflt = Inl TypeError"
| "py_dict_get d (YDict kvs) dflt = Inl TypeError"

fun safe_get :: "yval \<Rightarrow> yval list \<Rightarrow> yval \<Rightarrow> py_error + yval" where
  "safe_get result [] dflt = Inr (if result \<noteq> YNull then result else dflt)"
| "safe_get (YDict d) (key # keys) dflt =
     (case py_dict_get d key dflt of
        Inl e \<Rightarrow> Inl e
      | Inr result \<Rightarrow> safe_get result keys dflt)"
| "safe_get v (key # keys) dflt = Inr dflt"

section \<open>Match extractor\<close>

record match_data =
  source_file :: string
  match_type :: yval
  competition :: yval
  season :: yval
  match_date :: yval
  venue :: yval
  city :: yval
  team1 :: yval
  team2 :: yval
  toss_winner :: yval
  toss_decision :: yval
  winner :: yval
  win_by_runs :: yval
  win_by_wickets :: yval
  result_type :: yval
  player_of_match :: yval

text \<open>\<open>x[0] if x else None\<close>, as used for the dates and the player of the match.\<close>

definition first_or_none :: "yval \<Rightarrow> py_error + yval" where
  "first_or_none x = (if truthy x then py_index x 0 else Inr YNull)"

text \<open>The season is the year of the match date: a string \<open>YYYY-...\<close> or a date object.\<close>

fun season_of :: "yval \<Rightarrow> py_error + yval" where
  "season_of (YStr s) =
     (if s \<noteq> [] then
        (case py_int (hd (split_on CHR ''-'' s)) of Inl e \<Rightarrow> Inl e | Inr y \<Rightarrow> Inr (YInt y))
      else Inr YNull)"
| "season_of (YDate y m d) = Inr (YInt y)"
| "season_of v = Inr YNull"

definition extract_match_data :: "yval \<Rightarrow> string \<Rightarrow> py_error + match_data" where
  "extract_match_data yaml_data file_name =
     err_bind (as_dict yaml_data) (\<lambda>y.
     err_bind (as_dict (dget y ''info'' (YDict []))) (\<lambda>info.
     err_bind (first_or_none (dget info ''dates'' (YList []))) (\<lambda>date.
     err_bind (season_of date) (\<lambda>seas.
     err_bind (as_dict (dget info ''outcome'' (YDict []))) (\<lambda>outcome.
     let win = dget outcome ''winner'' YNull in
     err_bind (as_dict (dget outcome ''by'' (YDict []))) (\<lambda>win_by.
     let by_runs = py_or (dget win_by ''runs'' (YInt 0)) (YInt 0);
         by_wickets = py_or (dget win_by ''wickets'' (YInt 0)) (YInt 0);
         res = (case dict_find outcome (KStr ''result'') of
                  Some r \<Rightarrow> r
                | None \<Rightarrow> if \<not> truthy win then YStr ''no result'' else YStr ''normal'');
         teams = dget info ''teams'' (YList []) in
     err_bind (py_len teams) (\<lambda>n.
     err_bind (if n > 0 then py_index teams 0 else Inr YNull) (\<lambda>t1.
     err_bind (if n > 1 then py_index teams 1 else Inr YNull) (\<lambda>t2.
     err_bind (first_or_none (dget info ''player_of_match'' (YList []))) (\<lambda>pom.
     err_bind (safe_get (YDict info) [YStr ''toss'', YStr ''winner''] YNull) (\<lambda>toss_w.
     err_bind (safe_get (YDict info) [YStr ''toss'', YStr ''decision''] YNull) (\<lambda>toss_d.
     Inr \<lparr> source_file = file_name,
           match_type = dget info ''match_type'' (YStr ''T20''),
           competition = dget info ''competition'' (YStr ''IPL''),
           season = seas,
           match_date = date,
           venue = dget info ''venue'' (YStr ''Unknown''),
           city = dget info ''city'' YNull,
           team1 = t1,
           team2 = t2,
           toss_winner = toss_w,
           toss_decision = toss_d,
           winner = win,
           win_by_runs = by_runs,
           win_by_wickets = by_wickets,
           result_type = res,
           player_of_match = pom \<rparr>))))))))))))"

section \<open>Player extractor\<close>

record player =
  player_name :: yval
  team :: yval

fun players_of_teams :: "(ykey \<times> yval) list \<Rightarrow> player list \<Rightarrow> py_error + player list" where
  "players_of_teams [] players = Inr players"
| "players_of_teams ((t, player_list) # rest) players =
     err_bind (py_iter player_list) (\<lambda>names.
       players_of_teams rest
         (players @ map (\<lambda>n. \<lparr> player_name = n, team = key_val t \<rparr>) names))"

definition extract_players :: "yval \<Rightarrow> py_error + player list" where
  "extract_players yaml_data =
     err_bind (as_dict yaml_data) (\<lambda>y.
     err_bind (as_dict (dget y ''info'' (YDict []))) (\<lambda>info.
     err_bind (as_dict (dget info ''players'' (YDict []))) (\<lambda>players_data.
       players_of_teams players_data [])))"

section \<open>Innings and delivery extractor\<close>

text \<open>\<open>str(k)\<close> of a dictionary key.\<close>

fun key_str :: "ykey \<Rightarrow> string" where
  "key_str (KStr s) = s"
| "key_str (KInt i) = str_int i"
| "key_str (KBool b) = (if b then ''True'' else ''False'')"
| "key_str KNull = ''None''"

text \<open>
  \<open>k.lower()\<close>: a method of strings only. The result is used for one test, whether it
  contains \<open>super\<close>, so only the letters A to Z need to be lowered.
\<close>

definition lower_char :: "char \<Rightarrow> char" where
  "lower_char c =
     (let n = (of_char c :: nat) in if 65 \<le> n \<and> n \<le> 90 then char_of (n + 32) else c)"

fun key_lower :: "ykey \<Rightarrow> py_error + string" where
  "key_lower (KStr s) = Inr (map lower_char s)"
| "key_lower k = Inl AttributeError"

text \<open>\<open>sub in s\<close> on strings.\<close>

fun contains :: "string \<Rightarrow> string \<Rightarrow> bool" where
  "contains sub [] = (sub = [])"
| "contains sub (c # cs) = (take (length sub) (c # cs) = sub \<or> contains sub cs)"

text \<open>
  Floating-point arithmetic is not modelled. The one float the script computes,
  \<open>float(f"{last_over}.{last_ball}")\<close>, is kept as \<open>Float_lit s\<close>, which stands for the
  number \<open>float(s)\<close> of the decimal literal \<open>s\<close>. Two literals that differ as texts may
  stand for the same number; statements about \<open>Float_lit\<close> say which literal the script
  converts. \<open>float\<close> accepts the literal built from two integers unless a sign follows
  the point.
\<close>

datatype py_float = Float_lit string

definition over_ball_float :: "int \<Rightarrow> int \<Rightarrow> py_error + py_float" where
  "over_ball_float o_num b_num =
     (if b_num < 0 then Inl ValueError
      else Inr (Float_lit (str_int o_num @ ''.'' @ str_int b_num)))"

record delivery_row =
  match_id :: int
  innings_number :: nat
  over_number :: int
  ball_number :: int
  batting_team :: yval
  bowling_team :: yval
  striker :: yval
  non_striker :: yval
  bowler :: yval
  runs_batter :: yval
  runs_extras :: yval
  runs_total :: yval
  extras_wides :: yval
  extras_noballs :: yval
  extras_byes :: yval
  extras_legbyes :: yval
  extras_penalty :: yval
  is_wicket :: bool
  wicket_type :: yval
  player_dismissed :: yval
  fielder :: yval
  is_boundary :: bool
  is_four :: bool
  is_six :: bool
  is_dot_ball :: bool
  is_legal_delivery :: bool
  phase :: string

record innings_row =
  inn_match_id :: int
  inn_innings_number :: nat
  inn_batting_team :: yval
  inn_bowling_team :: yval
  total_runs :: int
  total_wickets :: int
  total_overs :: py_float
  total_extras :: int
  is_super_over :: bool

text \<open>The running totals of one innings, as the delivery loop updates them.\<close>

record inn_state =
  st_total_runs :: int
  st_total_wickets :: int
  st_total_extras :: int
  st_last_over :: int
  st_last_ball :: int

text \<open>
  The bowling team is the first team that differs from the batting team, and \<open>None\<close> when
  the loop finds no such team.
\<close>

fun first_other_team :: "yval list \<Rightarrow> yval \<Rightarrow> yval" where
  "first_other_team [] bat = YNull"
| "first_other_team (t # ts) bat = (if \<not> py_eq t bat then t else first_other_team ts bat)"

text \<open>
  The wicket section of a delivery: whether a wicket fell, its kind, the player out and
  the first fielder. Of a list of wickets only the first is read.
\<close>

definition extract_wicket ::
    "(ykey \<times> yval) list \<Rightarrow> py_error + (bool \<times> yval \<times> yval \<times> yval)" where
  "extract_wicket delivery =
     (let wicket = py_or (dget delivery ''wicket'' YNull) (dget delivery ''wickets'' YNull) in
      if truthy wicket then
        err_bind (case wicket of YList ws \<Rightarrow> py_index wicket 0 | _ \<Rightarrow> Inr wicket) (\<lambda>wicket1.
        err_bind (as_dict wicket1) (\<lambda>w.
        let fielders = dget w ''fielders'' (YList []) in
        err_bind
          (if truthy fielders then
             err_bind (py_index fielders 0) (\<lambda>f0.
               case f0 of YDict fd \<Rightarrow> Inr (dget fd ''name'' YNull) | _ \<Rightarrow> Inr f0)
           else Inr YNull) (\<lambda>fld.
        Inr (True, dget w ''kind'' YNull, dget w ''player_out'' YNull, fld))))
      else Inr (False, YNull, YNull, YNull))"

text \<open>The body of the loop over the deliveries of one innings.\<close>

definition delivery_step ::
    "int \<Rightarrow> nat \<Rightarrow> yval \<Rightarrow> yval \<Rightarrow> inn_state \<Rightarrow> yval \<Rightarrow> py_error + (inn_state \<times> delivery_row)" where
  "delivery_step m_id inn_no bat bowl st delivery_entry =
     err_bind (first_item delivery_entry) (\<lambda>(over_ball_key, delivery_v).
     err_bind (parse_over_ball (key_str over_ball_key)) (\<lambda>(over_num, ball_num).
     err_bind (as_dict delivery_v) (\<lambda>delivery.
     err_bind (as_dict (dget delivery ''runs'' (YDict []))) (\<lambda>runs.
     let r_batter = py_or (py_or (dget runs ''batsman'' (YInt 0)) (dget runs ''batter'' (YInt 0)))
                          (YInt 0);
         r_extras = py_or (dget runs ''extras'' (YInt 0)) (YInt 0);
         r_total = py_or (dget runs ''total'' (YInt 0)) (YInt 0) in
     err_bind (py_add_int (st_total_runs st) r_total) (\<lambda>total_runs'.
     err_bind (py_add_int (st_total_extras st) r_extras) (\<lambda>total_extras'.
     err_bind (as_dict (dget delivery ''extras'' (YDict []))) (\<lambda>extras.
     let e_wides = py_or (dget extras ''wides'' (YInt 0)) (YInt 0);
         e_noballs = py_or (dget extras ''noballs'' (YInt 0)) (YInt 0);
         e_byes = py_or (dget extras ''byes'' (YInt 0)) (YInt 0);
         e_legbyes = py_or (dget extras ''legbyes'' (YInt 0)) (YInt 0);
         e_penalty = py_or (dget extras ''penalty'' (YInt 0)) (YInt 0);
         legal = (py_eq_int e_wides 0 \<and> py_eq_int e_noballs 0) in
     err_bind (extract_wicket delivery) (\<lambda>(wkt, w_type, dismissed, fld).
     let four = py_eq_int r_batter 4;
         six = py_eq_int r_batter 6 in
     Inr (\<lparr> st_total_runs = total_runs',
            st_total_wickets = (if wkt then st_total_wickets st + 1 else st_total_wickets st),
            st_total_extras = total_extras',
            st_last_over = over_num,
            st_last_ball = ball_num \<rparr>,
          \<lparr> match_id = m_id,
            innings_number = inn_no,
            over_number = over_num,
            ball_number = ball_num,
            batting_team = bat,
            bowling_team = bowl,
            striker = py_or (dget delivery ''batsman'' YNull) (dget delivery ''batter'' YNull),
            non_striker = dget delivery ''non_striker'' YNull,
            bowler = dget delivery ''bowler'' YNull,
            runs_batter = r_batter,
            runs_extras = r_extras,
            runs_total = r_total,
            extras_wides = e_wides,
            extras_noballs = e_noballs,
            extras_byes = e_byes,
            extras_legbyes = e_legbyes,
            extras_penalty = e_penalty,
            is_wicket = wkt,
            wicket_type = w_type,
            player_dismissed = dismissed,
            fielder = fld,
            is_boundary = (four \<or> six),
            is_four = four,
            is_six = six,
            is_dot_ball = (py_eq_int r_total 0 \<and> legal),
            is_legal_delivery = legal,
            phase = get_phase over_num \<rparr>)))))))))"

fun delivery_loop ::
    "int \<Rightarrow> nat \<Rightarrow> yval \<Rightarrow> yval \<Rightarrow> inn_state \<Rightarrow> delivery_row list \<Rightarrow> yval list
      \<Rightarrow> py_error + (inn_state \<times> delivery_row list)" where
  "delivery_loop m_id inn_no bat bowl st deliveries_data [] = Inr (st, deliveries_data)"
| "delivery_loop m_id inn_no bat bowl st deliveries_data (delivery_entry # rest) =
     err_bind (delivery_step m_id inn_no bat bowl st delivery_entry) (\<lambda>(st', row).
       delivery_loop m_id inn_no bat bowl st' (deliveries_data @ [row]) rest)"

text \<open>The body of the loop over the innings entries; \<open>idx\<close> is the position of the entry.\<close>

definition innings_step ::
    "int \<Rightarrow> yval \<Rightarrow> nat \<Rightarrow> delivery_row list \<Rightarrow> yval
      \<Rightarrow> py_error + (innings_row \<times> delivery_row list)" where
  "innings_step m_id teams idx deliveries_data innings_entry =
     err_bind (first_item innings_entry) (\<lambda>(innings_key, innings_info_v).
     err_bind (as_dict innings_info_v) (\<lambda>innings_info.
     let bat = dget innings_info ''team'' YNull in
     err_bind (py_iter teams) (\<lambda>team_list.
     let bowl = first_other_team team_list bat in
     err_bind (key_lower innings_key) (\<lambda>lowered.
     err_bind (py_iter (dget innings_info ''deliveries'' (YList []))) (\<lambda>deliveries.
     err_bind (delivery_loop m_id (idx + 1) bat bowl
                 \<lparr> st_total_runs = 0, st_total_wickets = 0, st_total_extras = 0,
                   st_last_over = 0, st_last_ball = 0 \<rparr>
                 deliveries_data deliveries) (\<lambda>(st, deliveries_data').
     err_bind (over_ball_float (st_last_over st) (st_last_ball st)) (\<lambda>overs.
     Inr (\<lparr> inn_match_id = m_id,
            inn_innings_number = idx + 1,
            inn_batting_team = bat,
            inn_bowling_team = bowl,
            total_runs = st_total_runs st,
            total_wickets = st_total_wickets st,
            total_overs = overs,
            total_extras = st_total_extras st,
            is_super_over = contains ''super'' lowered \<rparr>,
          deliveries_data'))))))))"

fun innings_loop ::
    "int \<Rightarrow> yval \<Rightarrow> nat \<Rightarrow> innings_row list \<Rightarrow> delivery_row list \<Rightarrow> yval list
      \<Rightarrow> py_error + (innings_row list \<times> delivery_row list)" where
  "innings_loop m_id teams idx innings_data deliveries_data [] =
     Inr (innings_data, deliveries_data)"
| "innings_loop m_id teams idx innings_data deliveries_data (innings_entry # rest) =
     err_bind (innings_step m_id teams idx deliveries_data innings_entry) (\<lambda>(row, deliveries_data').
       innings_loop m_id teams (idx + 1) (innings_data @ [row]) deliveries_data' rest)"

definition extract_innings_and_deliveries ::
    "yval \<Rightarrow> int \<Rightarrow> yval \<Rightarrow> py_error + (innings_row list \<times> delivery_row list)" where
  "extract_innings_and_deliveries yaml_data m_id teams =
     err_bind (as_dict yaml_data) (\<lambda>y.
     err_bind (py_iter (dget y ''innings'' (YList []))) (\<lambda>innings_list.
       innings_loop m_id teams 0 [] [] innings_list))"

section \<open>Storage and load orchestrator\<close>

text \<open>
  The relational store as the script's SQL statements use it: one list of rows per table.
  The schema file is not among the sources, so its constraints are not modelled and every
  \<open>INSERT\<close> is taken to succeed. The field \<open>next_match_id\<close> stands for the missing
  table declaration that generates \<open>match_id\<close>: the specification only asks for
  "insert-match returning a generated identifier", here the next value of a counter kept
  with the tables.
\<close>

record db =
  matches :: "(int \<times> match_data) list"
  players :: "player list"
  innings :: "innings_row list"
  ball_by_ball :: "delivery_row list"
  next_match_id :: int

text \<open>
  \<open>insert_match\<close> first selects the rows with the same source file; if there is one it
  returns \<open>None\<close> and writes nothing.
\<close>

definition insert_match :: "db \<Rightarrow> match_data \<Rightarrow> int option \<times> db" where
  "insert_match d md =
     (case find (\<lambda>(i, m). source_file m = source_file md) (matches d) of
        Some existing \<Rightarrow> (None, d)
      | None \<Rightarrow>
          (Some (next_match_id d),
           d\<lparr> matches := matches d @ [(next_match_id d, md)],
              next_match_id := next_match_id d + 1 \<rparr>))"

text \<open>\<open>ON CONFLICT (player_name, team) DO NOTHING\<close>: a pair already stored is not added.\<close>

fun insert_players :: "db \<Rightarrow> player list \<Rightarrow> db" where
  "insert_players d [] = d"
| "insert_players d (p # ps) =
     insert_players (if p \<in> set (players d) then d else d\<lparr> players := players d @ [p] \<rparr>) ps"

definition insert_innings :: "db \<Rightarrow> innings_row list \<Rightarrow> db" where
  "insert_innings d innings_data = d\<lparr> innings := innings d @ innings_data \<rparr>"

definition insert_deliveries :: "db \<Rightarrow> delivery_row list \<Rightarrow> db" where
  "insert_deliveries d deliveries = d\<lparr> ball_by_ball := ball_by_ball d @ deliveries \<rparr>"

text \<open>
  A source file is given by its base name and by what opening and loading it yields: the
  loaded document, \<open>YAMLError\<close> from the loader, or another exception. The result of
  \<open>process_yaml_file\<close> is the returned boolean or the exception that leaves the function,
  together with the store as the cursor has left it.
\<close>

definition process_yaml_file ::
    "db \<Rightarrow> string \<Rightarrow> py_error + yval \<Rightarrow> (py_error + bool) \<times> db" where
  "process_yaml_file d filename loaded =
     (case loaded of
        Inl e \<Rightarrow> (if e = YAMLError then (Inr False, d) else (Inl e, d))
      | Inr yaml_data \<Rightarrow>
          if \<not> truthy yaml_data then (Inr False, d)
          else
            (case extract_match_data yaml_data filename of
               Inl e \<Rightarrow> (Inl e, d)
             | Inr md \<Rightarrow>
                 (case insert_match d md of
                    (None, d1) \<Rightarrow> (Inr False, d1)
                  | (Some m_id, d1) \<Rightarrow>
                      (case extract_players yaml_data of
                         Inl e \<Rightarrow> (Inl e, d1)
                       | Inr ps \<Rightarrow>
                           let d2 = insert_players d1 ps in
                           (case err_bind (as_dict yaml_data) (\<lambda>y.
                                   err_bind (as_dict (dget y ''info'' (YDict []))) (\<lambda>info.
                                     Inr (dget info ''teams'' (YList [])))) of
                              Inl e \<Rightarrow> (Inl e, d2)
                            | Inr teams \<Rightarrow>
                                (case extract_innings_and_deliveries yaml_data m_id teams of
                                   Inl e \<Rightarrow> (Inl e, d2)
                                 | Inr (innings_data, deliveries_data) \<Rightarrow>
                                     (Inr True,
                                      insert_deliveries (insert_innings d2 innings_data)
                                        deliveries_data)))))))"

text \<open>
  The connection: the committed store and the store as seen inside the open transaction.
  \<open>commit\<close> makes the transaction's writes permanent, \<open>rollback\<close> discards the rows
  written; an identifier drawn from the counter stays drawn, as with a database sequence.
\<close>

record conn =
  committed :: db
  working :: db

record counts =
  success_count :: nat
  skip_count :: nat
  error_count :: nat

text \<open>One round of the loop over the files in \<open>main\<close>.\<close>

definition main_step :: "counts \<times> conn \<Rightarrow> string \<times> (py_error + yval) \<Rightarrow> counts \<times> conn" where
  "main_step s file =
     (case s of (c, cn) \<Rightarrow>
      case process_yaml_file (working cn) (fst file) (snd file) of
        (Inr True, d) \<Rightarrow>
          (c\<lparr> success_count := success_count c + 1 \<rparr>, \<lparr> committed = d, working = d \<rparr>)
      | (Inr False, d) \<Rightarrow>
          (c\<lparr> skip_count := skip_count c + 1 \<rparr>, cn\<lparr> working := d \<rparr>)
      | (Inl e, d) \<Rightarrow>
          (c\<lparr> error_count := error_count c + 1 \<rparr>,
           cn\<lparr> working := (committed cn)\<lparr> next_match_id := next_match_id d \<rparr> \<rparr>))"

fun main_loop :: "counts \<times> conn \<Rightarrow> (string \<times> (py_error + yval)) list \<Rightarrow> counts \<times> conn" where
  "main_loop s [] = s"
| "main_loop s (file # files) = main_loop (main_step s file) files"

section \<open>The accessor as the specification words it\<close>

text \<open>
  The value reached by indexing successively into mappings; \<open>None\<close> as soon as a value on
  the way is not a mapping or has no entry for the key.
\<close>

fun reach :: "yval \<Rightarrow> yval list \<Rightarrow> yval option" where
  "reach v [] = Some v"
| "reach (YDict d) (YNull # ks) =
     (case dict_find d KNull of None \<Rightarrow> None | Some v \<Rightarrow> reach v ks)"
| "reach (YDict d) (YBool b # ks) =
     (case dict_find d (KBool b) of None \<Rightarrow> None | Some v \<Rightarrow> reach v ks)"
| "reach (YDict d) (YInt i # ks) =
     (case dict_find d (KInt i) of None \<Rightarrow> None | Some v \<Rightarrow> reach v ks)"
| "reach (YDict d) (YStr s # ks) =
     (case dict_find d (KStr s) of None \<Rightarrow> None | Some v \<Rightarrow> reach v ks)"
| "reach v (k # ks) = None"

text \<open>The reached value, or the default when nothing is reached or the value is null.\<close>

definition safe_get_spec :: "yval \<Rightarrow> yval list \<Rightarrow> yval \<Rightarrow> yval" where
  "safe_get_spec data keys dflt =
     (case reach data keys of None \<Rightarrow> dflt | Some v \<Rightarrow> if v = YNull then dflt else v)"

text \<open>Keys that can be looked up in a dictionary.\<close>

fun hashable :: "yval \<Rightarrow> bool" where
  "hashable (YList xs) = False"
| "hashable (YDict kvs) = False"
| "hashable v = True"

text \<open>A default that is no mapping, or a mapping in which none of the keys reaches a value.\<close>

fun lacks_keys :: "yval \<Rightarrow> yval list \<Rightarrow> bool" where
  "lacks_keys (YDict d) keys = list_all (\<lambda>k. reach (YDict d) [k] = None) keys"
| "lacks_keys v keys = True"

section \<open>Relations between the extracted rows\<close>

text \<open>The integer a run value adds to a total: booleans count as 0 and 1.\<close>

fun num_val :: "yval \<Rightarrow> int" where
  "num_val (YInt i) = i"
| "num_val (YBool b) = (if b then 1 else 0)"
| "num_val v = 0"

text \<open>The derived flags of a delivery row, in terms of its run and extras fields.\<close>

definition flags_ok :: "delivery_row \<Rightarrow> bool" where
  "flags_ok d =
     (is_legal_delivery d = (py_eq_int (extras_wides d) 0 \<and> py_eq_int (extras_noballs d) 0) \<and>
      is_four d = py_eq_int (runs_batter d) 4 \<and>
      is_six d = py_eq_int (runs_batter d) 6 \<and>
      is_boundary d = (py_eq_int (runs_batter d) 4 \<or> py_eq_int (runs_batter d) 6) \<and>
      is_dot_ball d = (py_eq_int (runs_total d) 0 \<and> is_legal_delivery d))"

text \<open>
  The totals of an innings row against the delivery rows of that innings, in the order
  they were processed.
\<close>

definition innings_agrees :: "innings_row \<Rightarrow> delivery_row list \<Rightarrow> bool" where
  "innings_agrees r ds =
     (total_runs r = sum_list (map (\<lambda>d. num_val (runs_total d)) ds) \<and>
      total_wickets r = int (length (filter is_wicket ds)) \<and>
      total_extras r = sum_list (map (\<lambda>d. num_val (runs_extras d)) ds) \<and>
      total_overs r =
        (if ds = [] then Float_lit ''0.0''
         else Float_lit (str_int (over_number (last ds)) @ ''.'' @ str_int (ball_number (last ds)))))"

text \<open>
  What holds of the rows produced so far when the innings loop is about to process the
  entry at position \<open>idx\<close>.
\<close>

definition rows_inv :: "nat \<Rightarrow> innings_row list \<Rightarrow> delivery_row list \<Rightarrow> bool" where
  "rows_inv idx inns dels =
     (list_all (\<lambda>r. inn_innings_number r \<le> idx \<and>
          innings_agrees r (filter (\<lambda>d. innings_number d = inn_innings_number r) dels)) inns \<and>
      list_all (\<lambda>d. innings_number d \<le> idx \<and> flags_ok d) dels)"

section \<open>The striker's runs as the specification words them\<close>

text \<open>The first value that is not zero (not false), and 0 when there is none.\<close>

fun first_nonzero :: "yval list \<Rightarrow> yval" where
  "first_nonzero [] = YInt 0"
| "first_nonzero (v # vs) = (if truthy v then v else first_nonzero vs)"

text \<open>
  The striker's runs of one delivery entry: the first non-zero value among the fields
  \<open>batsman\<close> and \<open>batter\<close> of its run breakdown, an absent field counting as 0.
\<close>

definition striker_runs :: "yval \<Rightarrow> yval" where
  "striker_runs delivery_entry =
     (case first_item delivery_entry of
        Inr (k, YDict delivery) \<Rightarrow>
          (case dget delivery ''runs'' (YDict []) of
             YDict runs \<Rightarrow>
               first_nonzero [dget runs ''batsman'' (YInt 0), dget runs ''batter'' (YInt 0)]
           | _ \<Rightarrow> YInt 0)
      | _ \<Rightarrow> YInt 0)"

text \<open>The delivery entries of one innings entry, and of a whole document, in source order.\<close>

definition entry_deliveries :: "yval \<Rightarrow> yval list" where
  "entry_deliveries innings_entry =
     (case first_item innings_entry of
        Inr (k, YDict innings_info) \<Rightarrow>
          (case py_iter (dget innings_info ''deliveries'' (YList [])) of
             Inr ds \<Rightarrow> ds
           | Inl e \<Rightarrow> [])
      | _ \<Rightarrow> [])"

definition delivery_entries :: "yval \<Rightarrow> yval list" where
  "delivery_entries yaml_data =
     (case yaml_data of
        YDict y \<Rightarrow>
          (case py_iter (dget y ''innings'' (YList [])) of
             Inr es \<Rightarrow> concat (map entry_deliveries es)
           | Inl e \<Rightarrow> [])
      | _ \<Rightarrow> [])"

section \<open>The run totals as the specification words them\<close>

text \<open>
  Of one delivery entry: its label, its total runs, its extras runs, and whether a wicket
  is recorded (under either spelling of the section). An absent field counts as 0.
\<close>

definition entry_label :: "yval \<Rightarrow> string" where
  "entry_label delivery_entry =
     (case first_item delivery_entry of Inr (k, v) \<Rightarrow> key_str k | Inl e \<Rightarrow> [])"

definition entry_delivery :: "yval \<Rightarrow> (ykey \<times> yval) list" where
  "entry_delivery delivery_entry =
     (case first_item delivery_entry of Inr (k, YDict delivery) \<Rightarrow> delivery | _ \<Rightarrow> [])"

definition entry_runs :: "yval \<Rightarrow> (ykey \<times> yval) list" where
  "entry_runs delivery_entry =
     (case dget (entry_delivery delivery_entry) ''runs'' (YDict []) of
        YDict runs \<Rightarrow> runs
      | _ \<Rightarrow> [])"

definition entry_total_runs :: "yval \<Rightarrow> int" where
  "entry_total_runs delivery_entry =
     num_val (first_nonzero [dget (entry_runs delivery_entry) ''total'' (YInt 0)])"

definition entry_extras_runs :: "yval \<Rightarrow> int" where
  "entry_extras_runs delivery_entry =
     num_val (first_nonzero [dget (entry_runs delivery_entry) ''extras'' (YInt 0)])"

definition entry_has_wicket :: "yval \<Rightarrow> bool" where
  "entry_has_wicket delivery_entry =
     (truthy (dget (entry_delivery delivery_entry) ''wicket'' YNull) \<or>
      truthy (dget (entry_delivery delivery_entry) ''wickets'' YNull))"

section \<open>Sample documents\<close>

text \<open>
  A match between the teams A and B. The first innings has four deliveries: a four, a six
  recorded under the spelling \<open>batter\<close> while \<open>batsman\<close> is 0, a wide, and a wicket on a
  ball without runs. The second innings has no deliveries.
\<close>

definition sample_match :: yval where
  "sample_match = YDict
     [(KStr ''info'', YDict
        [(KStr ''teams'', YList [YStr ''A'', YStr ''B'']),
         (KStr ''dates'', YList [YDate 2025 3 22]),
         (KStr ''outcome'', YDict
            [(KStr ''winner'', YStr ''A''), (KStr ''by'', YDict [(KStr ''runs'', YInt 5)])])]),
      (KStr ''innings'', YList
        [YDict [(KStr ''1st innings'', YDict
           [(KStr ''team'', YStr ''A''),
            (KStr ''deliveries'', YList
              [YDict [(KStr ''0.1'', YDict
                 [(KStr ''runs'', YDict
                    [(KStr ''batsman'', YInt 4), (KStr ''extras'', YInt 0),
                     (KStr ''total'', YInt 4)])])],
               YDict [(KStr ''0.2'', YDict
                 [(KStr ''runs'', YDict
                    [(KStr ''batsman'', YInt 0), (KStr ''batter'', YInt 6),
                     (KStr ''extras'', YInt 0), (KStr ''total'', YInt 6)])])],
               YDict [(KStr ''0.3'', YDict
                 [(KStr ''runs'', YDict
                    [(KStr ''batsman'', YInt 0), (KStr ''extras'', YInt 1),
                     (KStr ''total'', YInt 0)]),
                  (KStr ''extras'', YDict [(KStr ''wides'', YInt 1)])])],
               YDict [(KStr ''0.4'', YDict
                 [(KStr ''runs'', YDict
                    [(KStr ''batsman'', YInt 0), (KStr ''extras'', YInt 0),
                     (KStr ''total'', YInt 0)]),
                  (KStr ''wicket'', YDict
                    [(KStr ''kind'', YStr ''bowled''), (KStr ''player_out'', YStr ''P'')])])]])])],
         YDict [(KStr ''2nd innings'', YDict [(KStr ''team'', YStr ''B'')])]])]"

text \<open>An innings whose only delivery has four batter runs and a total of 0.\<close>

definition sample_four_without_total :: yval where
  "sample_four_without_total = YDict
     [(KStr ''innings'', YList
        [YDict [(KStr ''1st innings'', YDict
           [(KStr ''team'', YStr ''A''),
            (KStr ''deliveries'', YList
              [YDict [(KStr ''0.1'', YDict
                 [(KStr ''runs'', YDict
                    [(KStr ''batsman'', YInt 4), (KStr ''total'', YInt 0)])])]])])]])]"

text \<open>An innings whose only delivery carries the label \<open>19\<close>, without a ball index.\<close>

definition sample_short_label :: yval where
  "sample_short_label = YDict
     [(KStr ''innings'', YList
        [YDict [(KStr ''1st innings'', YDict
           [(KStr ''team'', YStr ''A''),
            (KStr ''deliveries'', YList
              [YDict [(KStr ''19'', YDict
                 [(KStr ''runs'', YDict
                    [(KStr ''batsman'', YInt 1), (KStr ''total'', YInt 1)])])]])])]])]"

text \<open>An innings of team A without deliveries.\<close>

definition sample_bare_innings :: yval where
  "sample_bare_innings = YDict
     [(KStr ''innings'', YList
        [YDict [(KStr ''1st innings'', YDict [(KStr ''team'', YStr ''A'')])]])]"

text \<open>The rows the extractor produces for \<open>sample_match\<close> with match identifier 7.\<close>

definition sample_innings_rows :: "innings_row list" where
  "sample_innings_rows =
     [\<lparr> inn_match_id = 7, inn_innings_number = 1, inn_batting_team = YStr ''A'',
         inn_bowling_team = YStr ''B'', total_runs = 10, total_wickets = 1,
         total_overs = Float_lit ''0.4'', total_extras = 1, is_super_over = False \<rparr>,
      \<lparr> inn_match_id = 7, inn_innings_number = 2, inn_batting_team = YStr ''B'',
         inn_bowling_team = YStr ''A'', total_runs = 0, total_wickets = 0,
         total_overs = Float_lit ''0.0'', total_extras = 0, is_super_over = False \<rparr>]"

definition sample_delivery_rows :: "delivery_row list" where
  "sample_delivery_rows =
     [\<lparr> match_id = 7, innings_number = 1, over_number = 0, ball_number = 1,
         batting_team = YStr ''A'', bowling_team = YStr ''B'', striker = YNull,
         non_striker = YNull, bowler = YNull, runs_batter = YInt 4, runs_extras = YInt 0,
         runs_total = YInt 4, extras_wides = YInt 0, extras_noballs = YInt 0,
         extras_byes = YInt 0, extras_legbyes = YInt 0, extras_penalty = YInt 0,
         is_wicket = False, wicket_type = YNull, player_dismissed = YNull, fielder = YNull,
         is_boundary = True, is_four = True, is_six = False, is_dot_ball = False,
         is_legal_delivery = True, phase = ''powerplay'' \<rparr>,
      \<lparr> match_id = 7, innings_number = 1, over_number = 0, ball_number = 2,
         batting_team = YStr ''A'', bowling_team = YStr ''B'', striker = YNull,
         non_striker = YNull, bowler = YNull, runs_batter = YInt 6, runs_extras = YInt 0,
         runs_total = YInt 6, extras_wides = YInt 0, extras_noballs = YInt 0,
         extras_byes = YInt 0, extras_legbyes = YInt 0, extras_penalty = YInt 0,
         is_wicket = False, wicket_type = YNull, player_dismissed = YNull, fielder = YNull,
         is_boundary = True, is_four = False, is_six = True, is_dot_ball = False,
         is_legal_delivery = True, phase = ''powerplay'' \<rparr>,
      \<lparr> match_id = 7, innings_number = 1, over_number = 0, ball_number = 3,
         batting_team = YStr ''A'', bowling_team = YStr ''B'', striker = YNull,
         non_striker = YNull, bowler = YNull, runs_batter = YInt 0, runs_extras = YInt 1,
         runs_total = YInt 0, extras_wides = YInt 1, extras_noballs = YInt 0,
         extras_byes = YInt 0, extras_legbyes = YInt 0, extras_penalty = YInt 0,
         is_wicket = False, wicket_type = YNull, player_dismissed = YNull, fielder = YNull,
         is_boundary = False, is_four = False, is_six = False, is_dot_ball = False,
         is_legal_delivery = False, phase = ''powerplay'' \<rparr>,
      \<lparr> match_id = 7, innings_number = 1, over_number = 0, ball_number = 4,
         batting_team = YStr ''A'', bowling_team = YStr ''B'', striker = YNull,
         non_striker = YNull, bowler = YNull, runs_batter = YInt 0, runs_extras = YInt 0,
         runs_total = YInt 0, extras_wides = YInt 0, extras_noballs = YInt 0,
         extras_byes = YInt 0, extras_legbyes = YInt 0, extras_penalty = YInt 0,
         is_wicket = True, wicket_type = YStr ''bowled'', player_dismissed = YStr ''P'',
         fielder = YNull, is_boundary = False, is_four = False, is_six = False,
         is_dot_ball = True, is_legal_delivery = True, phase = ''powerplay'' \<rparr>]"

text \<open>An innings of team B without deliveries.\<close>

definition sample_bare_innings_b :: yval where
  "sample_bare_innings_b = YDict
     [(KStr ''innings'', YList
        [YDict [(KStr ''1st innings'', YDict [(KStr ''team'', YStr ''B'')])]])]"

text \<open>A store that holds the match of the file \<open>m1.yaml\<close> with one innings and one delivery.\<close>

definition sample_match_data :: match_data where
  "sample_match_data =
     \<lparr> source_file = ''m1.yaml'', match_type = YStr ''T20'', competition = YStr ''IPL'',
       season = YInt 2025, match_date = YDate 2025 3 22, venue = YStr ''Unknown'',
       city = YNull, team1 = YStr ''A'', team2 = YStr ''B'', toss_winner = YNull,
       toss_decision = YNull, winner = YStr ''A'', win_by_runs = YInt 5,
       win_by_wickets = YInt 0, result_type = YStr ''normal'', player_of_match = YNull \<rparr>"

definition sample_db :: db where
  "sample_db =
     \<lparr> matches = [(7, sample_match_data)], players = [],
       innings = [sample_innings_rows ! 1], ball_by_ball = [sample_delivery_rows ! 0],
       next_match_id = 8 \<rparr>"

definition sample_conn :: conn where
  "sample_conn = \<lparr> committed = sample_db, working = sample_db \<rparr>"

definition no_counts :: counts where
  "no_counts = \<lparr> success_count = 0, skip_count = 0, error_count = 0 \<rparr>"

section \<open>Decimal rendering and parsing of integers\<close>

lemma is_digit_digit_char: "d < 10 \<Longrightarrow> is_digit (digit_char d)"
  by (simp add: is_digit_def digit_char_def)

lemma digit_val_digit_char: "d < 10 \<Longrightarrow> digit_val (digit_char d) = d"
  by (simp add: digit_val_def digit_char_def)

lemma str_nat_digits: "list_all is_digit (str_nat n) \<and> str_nat n \<noteq> []"
proof (induction n rule: str_nat.induct)
  case (1 n)
  show ?case
  proof (cases "n < 10")
    case True
    then show ?thesis by (subst str_nat.simps, subst str_nat.simps) (simp add: is_digit_digit_char)
  next
    case False
    with 1 show ?thesis
      by (subst str_nat.simps, subst str_nat.simps) (simp add: is_digit_digit_char)
  qed
qed

lemma parse_digits_append:
  "list_all is_digit ds \<Longrightarrow> is_digit c \<Longrightarrow> parse_digits acc ds = Some v \<Longrightarrow>
   parse_digits acc (ds @ [c]) = Some (v * 10 + digit_val c)"
  by (induction ds arbitrary: acc) auto

text \<open>Reading back the digits of a natural number gives the number.\<close>

lemma parse_unsigned_str_nat: "parse_unsigned (str_nat n) = Some n"
proof (induction n rule: str_nat.induct)
  case (1 n)
  show ?case
  proof (cases "n < 10")
    case True
    then show ?thesis
      by (subst str_nat.simps) (simp add: parse_unsigned_def is_digit_digit_char digit_val_digit_char)
  next
    case False
    then have ih: "parse_unsigned (str_nat (n div 10)) = Some (n div 10)" using 1 by simp
    obtain c cs where cs: "str_nat (n div 10) = c # cs"
      using str_nat_digits [of "n div 10"] by (cases "str_nat (n div 10)") auto
    have dig: "is_digit c" "list_all is_digit cs"
      using str_nat_digits [of "n div 10"] cs by auto
    have pd: "parse_digits (digit_val c) cs = Some (n div 10)"
      using ih cs dig by (simp add: parse_unsigned_def)
    have "parse_digits (digit_val c) (cs @ [digit_char (n mod 10)]) =
            Some (n div 10 * 10 + digit_val (digit_char (n mod 10)))"
      by (rule parse_digits_append [OF dig(2) _ pd]) (simp add: is_digit_digit_char)
    then show ?thesis
      using False cs dig
      by (subst str_nat.simps) (simp add: parse_unsigned_def digit_val_digit_char)
  qed
qed

lemma digit_not_space: "is_digit c \<Longrightarrow> \<not> is_space c"
  by (auto simp: is_digit_def is_space_def Let_def)

lemma digit_not_special:
  "is_digit c \<Longrightarrow> c \<noteq> CHR ''-'' \<and> c \<noteq> CHR ''+'' \<and> c \<noteq> CHR ''.''"
  by (auto simp: is_digit_def)

lemma strip_id:
  assumes "s \<noteq> []" "\<not> is_space (hd s)" "\<not> is_space (last s)"
  shows "strip s = s"
proof -
  have 1: "dropWhile is_space s = s" using assms by (simp add: dropWhile_eq_self_iff)
  have "hd (rev s) = last s" using assms by (simp add: hd_rev)
  then have 2: "dropWhile is_space (rev s) = rev s"
    using assms by (simp add: dropWhile_eq_self_iff)
  show ?thesis by (simp add: strip_def 1 2)
qed

lemma strip_str_nat: "strip (str_nat n) = str_nat n"
proof -
  have d: "list_all is_digit (str_nat n)" "str_nat n \<noteq> []" using str_nat_digits by auto
  then have "is_digit (hd (str_nat n))" "is_digit (last (str_nat n))"
    by (auto simp: list_all_iff)
  then show ?thesis using d by (intro strip_id) (auto dest: digit_not_space)
qed

lemma strip_minus_str_nat: "strip (CHR ''-'' # str_nat n) = CHR ''-'' # str_nat n"
proof -
  have d: "list_all is_digit (str_nat n)" "str_nat n \<noteq> []" using str_nat_digits by auto
  then have "is_digit (last (str_nat n))" by (auto simp: list_all_iff)
  then show ?thesis using d
    by (intro strip_id) (auto dest: digit_not_space simp: is_space_def)
qed

text \<open>\<open>int(str(i)) == i\<close> for every integer.\<close>

lemma py_int_str_int: "py_int (str_int i) = Inr i"
proof (cases "i < 0")
  case True
  then show ?thesis
    by (simp add: py_int_def str_int_def strip_minus_str_nat parse_unsigned_str_nat)
next
  case False
  obtain c cs where cs: "str_nat (nat i) = c # cs"
    using str_nat_digits [of "nat i"] by (cases "str_nat (nat i)") auto
  then have "is_digit c" using str_nat_digits [of "nat i"] by auto
  then have "c \<noteq> CHR ''-''" "c \<noteq> CHR ''+''" using digit_not_special by auto
  moreover have "parse_unsigned (c # cs) = Some (nat i)"
    using parse_unsigned_str_nat [of "nat i"] cs by simp
  moreover have "strip (str_nat (nat i)) = c # cs" using strip_str_nat [of "nat i"] cs by simp
  ultimately show ?thesis using False by (simp add: py_int_def str_int_def)
qed

lemma split_on_absent: "c \<notin> set xs \<Longrightarrow> split_on c xs = [xs]"
  by (induction xs) auto

lemma split_on_first: "c \<notin> set xs \<Longrightarrow> split_on c (xs @ c # ys) = xs # split_on c ys"
  by (induction xs) auto

lemma dot_notin_str_int: "CHR ''.'' \<notin> set (str_int i)"
proof -
  have "\<And>n. CHR ''.'' \<notin> set (str_nat n)"
    using str_nat_digits digit_not_special by (auto simp: list_all_iff)
  then show ?thesis by (simp add: str_int_def)
qed

lemma parse_over_ball_two: "parse_over_ball (str_int a @ ''.'' @ str_int b) = Inr (a, b)"
  by (simp add: parse_over_ball_def split_on_first split_on_absent dot_notin_str_int
      py_int_str_int)

lemma parse_over_ball_one: "parse_over_ball (str_int a) = Inr (a, 1)"
  by (simp add: parse_over_ball_def split_on_absent dot_notin_str_int py_int_str_int)

section \<open>Phase classifier\<close>

text \<open>
  Claim C1. The phase classifier returns \<open>powerplay\<close> for the over indices 0 to 5,
  \<open>middle\<close> for 6 to 14 and \<open>death\<close> for 15 and above; the boundary indices 5, 6, 14 and
  15 fall on the stated sides.
\<close>

theorem get_phase_bands:
  "(0 \<le> k \<and> k \<le> 5 \<longrightarrow> get_phase k = ''powerplay'') \<and>
   (6 \<le> k \<and> k \<le> 14 \<longrightarrow> get_phase k = ''middle'') \<and>
   (15 \<le> k \<longrightarrow> get_phase k = ''death'') \<and>
   get_phase 5 = ''powerplay'' \<and> get_phase 6 = ''middle'' \<and>
   get_phase 14 = ''middle'' \<and> get_phase 15 = ''death''"
  by (simp add: get_phase_def)

theorem get_phase_bands_witness:
  "get_phase 3 = ''powerplay'' \<and> get_phase 10 = ''middle'' \<and> get_phase 19 = ''death''"
proof -
  have a: "(0::int) \<le> 3 \<and> (3::int) \<le> 5" and b: "(6::int) \<le> 10 \<and> (10::int) \<le> 14"
    and c: "(15::int) \<le> 19" by simp_all
  from a b c get_phase_bands [of 3] get_phase_bands [of 10] get_phase_bands [of 19]
  show ?thesis by blast
qed

section \<open>Over/ball parser\<close>

text \<open>
  Claim C2. A label made of the decimal rendering of an integer, a point and the decimal
  rendering of a second integer parses to the pair of the two integers; a label that is
  the rendering of one integer, with no point, parses to that integer and the ball index
  1. The labels \<open>16.3\<close>, \<open>0\<close> and \<open>19.6\<close> give (16, 3), (0, 1) and (19, 6).
\<close>

theorem parse_over_ball_labels:
  "parse_over_ball (str_int a @ ''.'' @ str_int b) = Inr (a, b) \<and>
   parse_over_ball (str_int a) = Inr (a, 1) \<and>
   parse_over_ball ''16.3'' = Inr (16, 3) \<and>
   parse_over_ball ''0'' = Inr (0, 1) \<and>
   parse_over_ball ''19.6'' = Inr (19, 6)"
proof -
  have s16: "str_int 16 = ''16''" and s3: "str_int 3 = ''3''" and s0: "str_int 0 = ''0''"
    and s19: "str_int 19 = ''19''" and s6: "str_int 6 = ''6''"
    by code_simp+
  show ?thesis
    using parse_over_ball_two [of 16 3] parse_over_ball_two [of 19 6] parse_over_ball_one [of 0]
      parse_over_ball_two [of a b] parse_over_ball_one [of a]
    by (simp add: s16 s3 s0 s19 s6)
qed

theorem parse_over_ball_labels_witness:
  "parse_over_ball ''7.2'' = Inr (7, 2) \<and> parse_over_ball ''-4'' = Inr (- 4, 1)"
proof -
  have s7: "str_int 7 = ''7''" and s2: "str_int 2 = ''2''" and s4: "str_int (- 4) = ''-4''"
    by code_simp+
  show ?thesis
    using parse_over_ball_labels [of 7 2] parse_over_ball_labels [of "- 4" 0]
    by (simp add: s7 s2 s4)
qed

section \<open>Field accessor\<close>

lemma reach_step:
  "reach (YDict d) (k # ks) = (case reach (YDict d) [k] of None \<Rightarrow> None | Some v \<Rightarrow> reach v ks)"
  by (cases k) (simp_all split: option.splits)

lemma py_dict_get_hashable:
  "hashable k \<Longrightarrow>
   py_dict_get d k dflt = Inr (case reach (YDict d) [k] of None \<Rightarrow> dflt | Some v \<Rightarrow> v)"
  by (cases k) (simp_all add: dict_get_def split: option.splits)

lemma lacks_keys_tl: "lacks_keys dflt ks \<Longrightarrow> lacks_keys dflt (tl ks)"
  by (cases dflt; cases ks) simp_all

lemma safe_get_default_fixed:
  "list_all hashable keys \<Longrightarrow> lacks_keys dflt keys \<Longrightarrow> safe_get dflt keys dflt = Inr dflt"
proof (induction keys)
  case Nil
  then show ?case by simp
next
  case (Cons k ks)
  show ?case
  proof (cases dflt)
    case (YDict d)
    with Cons.prems have "reach (YDict d) [k] = None" "hashable k" by simp_all
    then have "py_dict_get d k dflt = Inr dflt" by (simp add: py_dict_get_hashable)
    moreover have "safe_get dflt ks dflt = Inr dflt"
      using Cons.IH Cons.prems YDict by simp
    ultimately show ?thesis using YDict by simp
  qed simp_all
qed

text \<open>
  Where the code agrees with the specification: with hashable keys, and a default in
  which none of the keys after the first reaches a value (so for every default that is
  no mapping), \<open>safe_get\<close> raises nothing and returns the reached value, or the default
  when nothing is reached or the reached value is null.
\<close>

lemma safe_get_agrees:
  "list_all hashable keys \<Longrightarrow> lacks_keys dflt (tl keys) \<Longrightarrow>
   safe_get data keys dflt = Inr (safe_get_spec data keys dflt)"
proof (induction keys arbitrary: data)
  case Nil
  then show ?case by (simp add: safe_get_spec_def)
next
  case (Cons k ks)
  then have hk: "hashable k" and hks: "list_all hashable ks" and lk: "lacks_keys dflt ks"
    by simp_all
  show ?case
  proof (cases data)
    case (YDict d)
    show ?thesis
    proof (cases "reach (YDict d) [k]")
      case None
      then have "py_dict_get d k dflt = Inr dflt" using hk by (simp add: py_dict_get_hashable)
      moreover have "reach (YDict d) (k # ks) = None" using None by (subst reach_step) simp
      ultimately show ?thesis
        using YDict safe_get_default_fixed [OF hks lk] by (simp add: safe_get_spec_def)
    next
      case (Some v)
      then have "py_dict_get d k dflt = Inr v" using hk by (simp add: py_dict_get_hashable)
      moreover have "reach (YDict d) (k # ks) = reach v ks" using Some by (subst reach_step) simp
      ultimately show ?thesis
        using YDict Cons.IH [OF hks lacks_keys_tl [OF lk], of v] by (simp add: safe_get_spec_def)
    qed
  qed (simp_all add: safe_get_spec_def)
qed

text \<open>
  Claim C9 says that for every nested mapping, sequence of keys and default the accessor
  never raises, returns the value reached by indexing successively into mappings, and
  returns the default as soon as a value on the way is absent or not a mapping, or when
  the reached value is null. The code does so where a value on the way is not a mapping,
  but not where a key is absent: it stores the default as the current value and goes on
  indexing. With the default \<open>{'b': 42}\<close>, the empty mapping and the keys \<open>x\<close>, \<open>b\<close>, the
  key \<open>x\<close> is absent and the code returns 42 instead of the default; where \<open>x\<close> holds the
  number 5 it returns the default at once. A key that is a list makes the lookup raise
  \<open>TypeError\<close>.
\<close>

theorem safe_get_indexes_into_default:
  "reach (YDict []) [YStr ''x'', YStr ''b''] = None \<and>
   safe_get_spec (YDict []) [YStr ''x'', YStr ''b''] (YDict [(KStr ''b'', YInt 42)])
     = YDict [(KStr ''b'', YInt 42)] \<and>
   safe_get (YDict []) [YStr ''x'', YStr ''b''] (YDict [(KStr ''b'', YInt 42)])
     = Inr (YInt 42) \<and>
   safe_get (YDict [(KStr ''x'', YInt 5)]) [YStr ''x'', YStr ''b''] (YDict [(KStr ''b'', YInt 42)])
     = Inr (YDict [(KStr ''b'', YInt 42)]) \<and>
   safe_get (YDict []) [YList []] YNull = Inl TypeError"
  by (simp add: safe_get_spec_def dict_get_def)

section \<open>The delivery loop and the innings loop\<close>

lemma err_bind_Inr: "err_bind m f = Inr y \<longleftrightarrow> (\<exists>x. m = Inr x \<and> f x = Inr y)"
  by (cases m) (simp_all add: err_bind_def)

lemma py_add_int_Inr: "py_add_int acc v = Inr r \<Longrightarrow> r = acc + num_val v"
  by (cases v) auto

lemma as_dict_Inr: "as_dict v = Inr d \<longleftrightarrow> v = YDict d"
  by (cases v) auto

lemma str_int_0: "str_int 0 = ''0''"
  by code_simp

text \<open>What one round of the delivery loop does to the totals, and the row it appends.\<close>

lemma delivery_step_row:
  assumes "delivery_step m n bat bowl st e = Inr (st', row)"
  shows "innings_number row = n \<and> match_id row = m \<and> flags_ok row \<and>
         st_total_runs st' = st_total_runs st + num_val (runs_total row) \<and>
         st_total_extras st' = st_total_extras st + num_val (runs_extras row) \<and>
         st_total_wickets st' = st_total_wickets st + (if is_wicket row then 1 else 0) \<and>
         st_last_over st' = over_number row \<and> st_last_ball st' = ball_number row \<and>
         phase row = get_phase (over_number row) \<and>
         batting_team row = bat \<and> bowling_team row = bowl"
  using assms
  by (auto simp: delivery_step_def err_bind_Inr Let_def flags_ok_def dest!: py_add_int_Inr)

lemma delivery_step_runs:
  assumes "delivery_step m n bat bowl st e = Inr (st', row)"
  shows "runs_batter row = striker_runs e"
  using assms
  by (auto simp: delivery_step_def err_bind_Inr Let_def as_dict_Inr striker_runs_def py_or_def)

lemma delivery_loop_rows:
  "delivery_loop m n bat bowl st dd es = Inr (st', dd') \<Longrightarrow>
   \<exists>new. dd' = dd @ new \<and> length new = length es \<and>
     (\<forall>d \<in> set new. innings_number d = n \<and> flags_ok d) \<and>
     map runs_batter new = map striker_runs es \<and>
     st_total_runs st' = st_total_runs st + sum_list (map (\<lambda>d. num_val (runs_total d)) new) \<and>
     st_total_extras st' = st_total_extras st + sum_list (map (\<lambda>d. num_val (runs_extras d)) new) \<and>
     st_total_wickets st' = st_total_wickets st + int (length (filter is_wicket new)) \<and>
     (if new = [] then st' = st
      else st_last_over st' = over_number (last new) \<and> st_last_ball st' = ball_number (last new))"
proof (induction es arbitrary: st dd)
  case Nil
  then show ?case by simp
next
  case (Cons e es)
  from Cons.prems obtain st1 row where
    step: "delivery_step m n bat bowl st e = Inr (st1, row)" and
    rest: "delivery_loop m n bat bowl st1 (dd @ [row]) es = Inr (st', dd')"
    by (auto simp: err_bind_Inr)
  note r = delivery_step_row [OF step]
  note rb = delivery_step_runs [OF step]
  from Cons.IH [OF rest] obtain new where
    n: "dd' = (dd @ [row]) @ new" "length new = length es"
       "\<forall>d \<in> set new. innings_number d = n \<and> flags_ok d"
       "map runs_batter new = map striker_runs es"
       "st_total_runs st' = st_total_runs st1 + sum_list (map (\<lambda>d. num_val (runs_total d)) new)"
       "st_total_extras st' = st_total_extras st1 + sum_list (map (\<lambda>d. num_val (runs_extras d)) new)"
       "st_total_wickets st' = st_total_wickets st1 + int (length (filter is_wicket new))"
       "if new = [] then st' = st1
        else st_last_over st' = over_number (last new) \<and> st_last_ball st' = ball_number (last new)"
    by blast
  show ?case
  proof (intro exI [of _ "row # new"] conjI)
    show "dd' = dd @ row # new" using n(1) by simp
    show "length (row # new) = length (e # es)" using n(2) by simp
    show "\<forall>d \<in> set (row # new). innings_number d = n \<and> flags_ok d" using n(3) r by simp
    show "map runs_batter (row # new) = map striker_runs (e # es)" using n(4) rb by simp
    show "st_total_runs st' = st_total_runs st + sum_list (map (\<lambda>d. num_val (runs_total d)) (row # new))"
      using n(5) r by simp
    show "st_total_extras st' = st_total_extras st + sum_list (map (\<lambda>d. num_val (runs_extras d)) (row # new))"
      using n(6) r by simp
    show "st_total_wickets st' = st_total_wickets st + int (length (filter is_wicket (row # new)))"
      using n(7) r by simp
    show "if row # new = [] then st' = st
      else st_last_over st' = over_number (last (row # new)) \<and>
           st_last_ball st' = ball_number (last (row # new))"
      using n(8) r by (cases "new = []") simp_all
  qed
qed

text \<open>The innings row and the delivery rows one round of the innings loop produces.\<close>

lemma innings_step_row:
  assumes "innings_step m teams idx dd e = Inr (row, dd')"
  shows "\<exists>new team_list. dd' = dd @ new \<and> inn_innings_number row = idx + 1 \<and>
           (\<forall>d \<in> set new. innings_number d = idx + 1 \<and> flags_ok d) \<and>
           map runs_batter new = map striker_runs (entry_deliveries e) \<and>
           innings_agrees row new \<and>
           py_iter teams = Inr team_list \<and>
           inn_bowling_team row = first_other_team team_list (inn_batting_team row)"
proof -
  from assms obtain k info team_list lowered deliveries st overs where
    a: "first_item e = Inr (k, YDict info)"
       "py_iter teams = Inr team_list" "key_lower k = Inr lowered"
       "py_iter (dget info ''deliveries'' (YList [])) = Inr deliveries"
       "delivery_loop m (idx + 1) (dget info ''team'' YNull)
          (first_other_team team_list (dget info ''team'' YNull))
          \<lparr> st_total_runs = 0, st_total_wickets = 0, st_total_extras = 0,
            st_last_over = 0, st_last_ball = 0 \<rparr> dd deliveries = Inr (st, dd')"
       "over_ball_float (st_last_over st) (st_last_ball st) = Inr overs"
       "row = \<lparr> inn_match_id = m, inn_innings_number = idx + 1,
            inn_batting_team = dget info ''team'' YNull,
            inn_bowling_team = first_other_team team_list (dget info ''team'' YNull),
            total_runs = st_total_runs st, total_wickets = st_total_wickets st,
            total_overs = overs, total_extras = st_total_extras st,
            is_super_over = contains ''super'' lowered \<rparr>"
    by (auto simp: innings_step_def err_bind_Inr Let_def as_dict_Inr)
  from delivery_loop_rows [OF a(5)] obtain new where
    n: "dd' = dd @ new"
       "\<forall>d \<in> set new. innings_number d = idx + 1 \<and> flags_ok d"
       "map runs_batter new = map striker_runs deliveries"
       "st_total_runs st = sum_list (map (\<lambda>d. num_val (runs_total d)) new)"
       "st_total_extras st = sum_list (map (\<lambda>d. num_val (runs_extras d)) new)"
       "st_total_wickets st = int (length (filter is_wicket new))"
       "if new = [] then st = \<lparr> st_total_runs = 0, st_total_wickets = 0, st_total_extras = 0,
            st_last_over = 0, st_last_ball = 0 \<rparr>
        else st_last_over st = over_number (last new) \<and> st_last_ball st = ball_number (last new)"
    by auto
  have ov: "overs = Float_lit (str_int (st_last_over st) @ ''.'' @ str_int (st_last_ball st))"
    using a(6) by (auto simp: over_ball_float_def split: if_splits)
  have ag: "innings_agrees row new"
    using n ov a(7) by (cases "new = []") (simp_all add: innings_agrees_def str_int_0)
  have ed: "entry_deliveries e = deliveries"
    using a(1,4) by (simp add: entry_deliveries_def)
  show ?thesis using n(1,2,3) ag ed a(2,7) by auto
qed

lemma rows_inv_step:
  assumes inv: "rows_inv idx inns dd" and step: "innings_step m teams idx dd e = Inr (row, dd')"
  shows "rows_inv (idx + 1) (inns @ [row]) dd'"
proof -
  from innings_step_row [OF step] obtain new where
    n: "dd' = dd @ new" "inn_innings_number row = idx + 1"
       "\<forall>d \<in> set new. innings_number d = idx + 1 \<and> flags_ok d" "innings_agrees row new"
    by blast
  have old: "\<forall>d \<in> set dd. innings_number d \<le> idx \<and> flags_ok d"
    using inv by (simp add: rows_inv_def list_all_iff)
  have f_new: "filter (\<lambda>d. innings_number d = idx + 1) new = new"
    using n(3) by (simp add: filter_id_conv)
  have f_old: "filter (\<lambda>d. innings_number d = idx + 1) dd = []"
    using old by (auto simp: filter_empty_conv)
  have row_ok: "innings_agrees row (filter (\<lambda>d. innings_number d = inn_innings_number row) dd')"
    using n(1,2,4) f_new f_old by simp
  have prev: "\<And>r. r \<in> set inns \<Longrightarrow> inn_innings_number r \<le> idx + 1 \<and>
      innings_agrees r (filter (\<lambda>d. innings_number d = inn_innings_number r) dd')"
  proof -
    fix r assume r: "r \<in> set inns"
    then have le: "inn_innings_number r \<le> idx"
      and ag: "innings_agrees r (filter (\<lambda>d. innings_number d = inn_innings_number r) dd)"
      using inv by (simp_all add: rows_inv_def list_all_iff)
    have "filter (\<lambda>d. innings_number d = inn_innings_number r) new = []"
      using n(3) le by (auto simp: filter_empty_conv)
    then show "inn_innings_number r \<le> idx + 1 \<and>
      innings_agrees r (filter (\<lambda>d. innings_number d = inn_innings_number r) dd')"
      using le ag n(1) by simp
  qed
  have dels: "\<forall>d \<in> set dd'. innings_number d \<le> idx + 1 \<and> flags_ok d"
    using old n(1,3) by auto
  show ?thesis
    unfolding rows_inv_def list_all_iff using prev row_ok n(2) dels by auto
qed

lemma rows_inv_loop:
  "rows_inv idx inns0 dd0 \<Longrightarrow> innings_loop m teams idx inns0 dd0 es = Inr (inns, dels) \<Longrightarrow>
   rows_inv (idx + length es) inns dels"
proof (induction es arbitrary: idx inns0 dd0)
  case Nil
  then show ?case by simp
next
  case (Cons e es)
  from Cons.prems(2) obtain row dd1 where
    step: "innings_step m teams idx dd0 e = Inr (row, dd1)" and
    rest: "innings_loop m teams (idx + 1) (inns0 @ [row]) dd1 es = Inr (inns, dels)"
    by (auto simp: err_bind_Inr)
  from Cons.IH [OF rows_inv_step [OF Cons.prems(1) step] rest] show ?case by simp
qed

text \<open>Every innings row comes from the entry at its position.\<close>

lemma innings_loop_nth:
  "innings_loop m teams idx inns0 dd0 es = Inr (inns, dels) \<Longrightarrow>
   \<exists>rows. inns = inns0 @ rows \<and> length rows = length es \<and>
     (\<forall>i < length es. \<exists>dd dd'. innings_step m teams (idx + i) dd (es ! i) = Inr (rows ! i, dd'))"
proof (induction es arbitrary: idx inns0 dd0)
  case Nil
  then show ?case by simp
next
  case (Cons e es)
  from Cons.prems obtain row dd1 where
    step: "innings_step m teams idx dd0 e = Inr (row, dd1)" and
    rest: "innings_loop m teams (idx + 1) (inns0 @ [row]) dd1 es = Inr (inns, dels)"
    by (auto simp: err_bind_Inr)
  from Cons.IH [OF rest] obtain rows where
    r: "inns = (inns0 @ [row]) @ rows" "length rows = length es"
       "\<forall>i < length es. \<exists>dd dd'. innings_step m teams (idx + 1 + i) dd (es ! i) = Inr (rows ! i, dd')"
    by blast
  have "\<forall>i < length (e # es). \<exists>dd dd'.
      innings_step m teams (idx + i) dd ((e # es) ! i) = Inr ((row # rows) ! i, dd')"
  proof (intro allI impI)
    fix i assume i: "i < length (e # es)"
    show "\<exists>dd dd'. innings_step m teams (idx + i) dd ((e # es) ! i) = Inr ((row # rows) ! i, dd')"
    proof (cases i)
      case 0
      then show ?thesis using step by auto
    next
      case (Suc j)
      then have "j < length es" using i by simp
      with r(3) obtain dd dd' where
        "innings_step m teams (idx + 1 + j) dd (es ! j) = Inr (rows ! j, dd')" by blast
      then show ?thesis using Suc by auto
    qed
  qed
  then show ?case using r(1,2) by (intro exI [of _ "row # rows"]) simp
qed

text \<open>The striker's runs of the rows the innings loop appends, in order.\<close>

lemma innings_loop_runs:
  "innings_loop m teams idx inns0 dd0 es = Inr (inns, dels) \<Longrightarrow>
   \<exists>new. dels = dd0 @ new \<and>
     map runs_batter new = map striker_runs (concat (map entry_deliveries es))"
proof (induction es arbitrary: idx inns0 dd0)
  case Nil
  then show ?case by simp
next
  case (Cons e es)
  from Cons.prems obtain row dd1 where
    step: "innings_step m teams idx dd0 e = Inr (row, dd1)" and
    rest: "innings_loop m teams (idx + 1) (inns0 @ [row]) dd1 es = Inr (inns, dels)"
    by (auto simp: err_bind_Inr)
  from innings_step_row [OF step] obtain new1 where
    s: "dd1 = dd0 @ new1" "map runs_batter new1 = map striker_runs (entry_deliveries e)"
    by blast
  from Cons.IH [OF rest] obtain new2 where
    t: "dels = dd1 @ new2"
       "map runs_batter new2 = map striker_runs (concat (map entry_deliveries es))"
    by blast
  show ?case using s t by (intro exI [of _ "new1 @ new2"]) simp
qed

lemma extract_loop:
  assumes "extract_innings_and_deliveries y m teams = Inr (inns, dels)"
  shows "\<exists>yd es. y = YDict yd \<and> py_iter (dget yd ''innings'' (YList [])) = Inr es \<and>
           innings_loop m teams 0 [] [] es = Inr (inns, dels)"
  using assms by (auto simp: extract_innings_and_deliveries_def err_bind_Inr as_dict_Inr)

lemma extract_rows_inv:
  assumes "extract_innings_and_deliveries y m teams = Inr (inns, dels)"
  shows "\<exists>n. rows_inv n inns dels"
proof -
  from extract_loop [OF assms] obtain es where
    l: "innings_loop m teams 0 [] [] es = Inr (inns, dels)" by blast
  have "rows_inv 0 [] []" by (simp add: rows_inv_def)
  from rows_inv_loop [OF this l] show ?thesis by blast
qed

lemma sample_match_rows:
  "extract_innings_and_deliveries sample_match 7 (YList (map YStr [''A'', ''B''])) =
     Inr (sample_innings_rows, sample_delivery_rows)"
  by code_simp

section \<open>Derived flags of a delivery\<close>

text \<open>
  Claim C3, as amended. For every delivery row the extractor produces: the delivery is
  legal iff its wides and no-balls extras are both zero, \<open>is_four\<close> holds iff the batter
  runs equal 4, \<open>is_boundary\<close> iff they equal 4 or 6, and \<open>is_dot_ball\<close> iff the total runs
  equal 0 and the delivery is legal. Hence a legal delivery with batter runs 4 has
  \<open>is_four\<close> and \<open>is_boundary\<close> true, and \<open>is_dot_ball\<close> false provided its total runs
  are not 0; and a delivery with total runs 0 and a wide recorded has \<open>is_dot_ball\<close>
  false.
\<close>

theorem delivery_flags:
  assumes "extract_innings_and_deliveries y m teams = Inr (inns, dels)" and "d \<in> set dels"
  shows "is_legal_delivery d = (py_eq_int (extras_wides d) 0 \<and> py_eq_int (extras_noballs d) 0) \<and>
         is_four d = py_eq_int (runs_batter d) 4 \<and>
         is_boundary d = (py_eq_int (runs_batter d) 4 \<or> py_eq_int (runs_batter d) 6) \<and>
         is_dot_ball d = (py_eq_int (runs_total d) 0 \<and> is_legal_delivery d) \<and>
         (py_eq_int (runs_batter d) 4 \<and> is_legal_delivery d \<and> \<not> py_eq_int (runs_total d) 0 \<longrightarrow>
            is_four d \<and> is_boundary d \<and> \<not> is_dot_ball d) \<and>
         (py_eq_int (runs_total d) 0 \<and> \<not> py_eq_int (extras_wides d) 0 \<longrightarrow> \<not> is_dot_ball d)"
proof -
  from extract_rows_inv [OF assms(1)] obtain n where "rows_inv n inns dels" by blast
  then have "flags_ok d" using assms(2) by (simp add: rows_inv_def list_all_iff)
  then show ?thesis by (simp add: flags_ok_def)
qed

theorem delivery_flags_witness:
  "is_four (sample_delivery_rows ! 0) \<and> is_boundary (sample_delivery_rows ! 0) \<and>
   \<not> is_dot_ball (sample_delivery_rows ! 0) \<and>
   runs_total (sample_delivery_rows ! 2) = YInt 0 \<and> extras_wides (sample_delivery_rows ! 2) = YInt 1 \<and>
   \<not> is_dot_ball (sample_delivery_rows ! 2)"
proof -
  have a: "sample_delivery_rows ! 0 \<in> set sample_delivery_rows"
    and b: "sample_delivery_rows ! 2 \<in> set sample_delivery_rows"
    by (simp_all add: sample_delivery_rows_def)
  have c: "py_eq_int (runs_batter (sample_delivery_rows ! 0)) 4"
    "is_legal_delivery (sample_delivery_rows ! 0)"
    "\<not> py_eq_int (runs_total (sample_delivery_rows ! 0)) 0"
    "runs_total (sample_delivery_rows ! 2) = YInt 0"
    "extras_wides (sample_delivery_rows ! 2) = YInt 1"
    by (simp_all add: sample_delivery_rows_def)
  from delivery_flags [OF sample_match_rows a] delivery_flags [OF sample_match_rows b] c
  show ?thesis by simp
qed

text \<open>
  The claim as stated fails where the run breakdown is not consistent: the script takes
  the total from the source and does not compare it with the batter runs. The only
  delivery of \<open>sample_four_without_total\<close> has batter runs 4 and total 0; it is
  extracted as a legal four that is also a dot ball.
\<close>

theorem four_and_dot_ball_counterexample:
  "\<not> isl (extract_innings_and_deliveries sample_four_without_total 1 (YList [])) \<and>
   map runs_batter (snd (projr (extract_innings_and_deliveries sample_four_without_total 1 (YList []))))
     = [YInt 4] \<and>
   map is_legal_delivery (snd (projr (extract_innings_and_deliveries sample_four_without_total 1 (YList []))))
     = [True] \<and>
   map is_four (snd (projr (extract_innings_and_deliveries sample_four_without_total 1 (YList []))))
     = [True] \<and>
   map is_dot_ball (snd (projr (extract_innings_and_deliveries sample_four_without_total 1 (YList []))))
     = [True]"
  by code_simp

section \<open>Bowling team\<close>

lemma py_eq_YStr: "py_eq (YStr s) v \<longleftrightarrow> v = YStr s"
  by (cases v) auto

lemma first_other_team_unknown:
  "first_other_team ts bat = YNull \<Longrightarrow> (\<forall>t \<in> set ts. py_eq t bat) \<or> YNull \<in> set ts"
  by (induction ts) (auto split: if_splits)

lemma first_other_team_names:
  "first_other_team (map YStr names) bat = YNull \<Longrightarrow> \<forall>n \<in> set names. bat = YStr n"
  by (induction names) (auto simp: py_eq_YStr split: if_splits)

text \<open>
  Claim C4, as amended. For every innings of a match record whose team list has two
  entries of which one equals the innings' batting team and the other does not (as when
  the list names two distinct teams and the batting team is one of them), the inferred
  bowling team is the other entry. The bowling team is left unknown only when every
  entry of the team list equals the batting team, which for a list of team names means
  that it has fewer than 2 distinct entries, or when the list has a null entry.
\<close>

theorem bowling_team_other:
  assumes "extract_innings_and_deliveries y m teams = Inr (inns, dels)" and "r \<in> set inns"
  shows "\<exists>team_list. py_iter teams = Inr team_list \<and>
     (team_list = [a, b] \<and> py_eq a (inn_batting_team r) \<and> \<not> py_eq b (inn_batting_team r)
        \<longrightarrow> inn_bowling_team r = b) \<and>
     (team_list = [a, b] \<and> py_eq b (inn_batting_team r) \<and> \<not> py_eq a (inn_batting_team r)
        \<longrightarrow> inn_bowling_team r = a) \<and>
     (inn_bowling_team r = YNull
        \<longrightarrow> (\<forall>t \<in> set team_list. py_eq t (inn_batting_team r)) \<or> YNull \<in> set team_list) \<and>
     (team_list = map YStr names \<and> inn_bowling_team r = YNull \<longrightarrow> card (set names) < 2)"
proof -
  from extract_loop [OF assms(1)] obtain es where
    l: "innings_loop m teams 0 [] [] es = Inr (inns, dels)" by blast
  from innings_loop_nth [OF l] have
    len: "length inns = length es" and
    nth: "\<forall>i < length es. \<exists>dd dd'.
            innings_step m teams (0 + i) dd (es ! i) = Inr (inns ! i, dd')"
    by auto
  from assms(2) obtain i where i: "i < length inns" "r = inns ! i"
    by (auto simp: in_set_conv_nth)
  with len nth obtain dd dd' where
    "innings_step m teams (0 + i) dd (es ! i) = Inr (r, dd')" by auto
  from innings_step_row [OF this] obtain team_list where
    it: "py_iter teams = Inr team_list" and
    bowl: "inn_bowling_team r = first_other_team team_list (inn_batting_team r)"
    by auto
  have names: "card (set names) < 2"
    if "team_list = map YStr names" "inn_bowling_team r = YNull"
  proof -
    from that bowl first_other_team_names [of names "inn_batting_team r"]
    have all: "\<forall>n \<in> set names. inn_batting_team r = YStr n" by simp
    show ?thesis
    proof (cases names)
      case Nil
      then show ?thesis by simp
    next
      case (Cons n ns)
      with all have "set names \<subseteq> {n}" by auto
      then have "card (set names) \<le> card {n}" by (intro card_mono) auto
      then show ?thesis by simp
    qed
  qed
  have unknown: "(\<forall>t \<in> set team_list. py_eq t (inn_batting_team r)) \<or> YNull \<in> set team_list"
    if "inn_bowling_team r = YNull"
    using that bowl first_other_team_unknown [of team_list "inn_batting_team r"] by simp
  have ab: "inn_bowling_team r = b"
    if "team_list = [a, b]" "py_eq a (inn_batting_team r)" "\<not> py_eq b (inn_batting_team r)"
    using that bowl by simp
  have ba: "inn_bowling_team r = a"
    if "team_list = [a, b]" "\<not> py_eq a (inn_batting_team r)"
    using that bowl by simp
  show ?thesis
    using it names unknown ab ba by (intro exI [of _ team_list]) blast
qed

theorem bowling_team_other_witness:
  "inn_batting_team (sample_innings_rows ! 0) = YStr ''A'' \<and>
   inn_bowling_team (sample_innings_rows ! 0) = YStr ''B'' \<and>
   inn_batting_team (sample_innings_rows ! 1) = YStr ''B'' \<and>
   inn_bowling_team (sample_innings_rows ! 1) = YStr ''A''"
proof -
  have a: "sample_innings_rows ! 0 \<in> set sample_innings_rows"
    and b: "sample_innings_rows ! 1 \<in> set sample_innings_rows"
    by (simp_all add: sample_innings_rows_def)
  have c: "inn_batting_team (sample_innings_rows ! 0) = YStr ''A''"
    "inn_batting_team (sample_innings_rows ! 1) = YStr ''B''"
    by (simp_all add: sample_innings_rows_def)
  from bowling_team_other [OF sample_match_rows a, of "YStr ''A''" "YStr ''B''"]
    bowling_team_other [OF sample_match_rows b, of "YStr ''A''" "YStr ''B''"] c
  show ?thesis by simp
qed

text \<open>
  The claim as stated fails for a team list that names the same team twice: the list has
  two entries, and the bowling team of an innings of that team is unknown. It also fails
  for a list whose first entry is null: with the entries null and B, two distinct
  entries, the bowling team of an innings of B is the null entry.
\<close>

theorem same_team_twice_counterexample:
  "extract_innings_and_deliveries sample_bare_innings 1 (YList [YStr ''A'', YStr ''A'']) =
     Inr ([\<lparr> inn_match_id = 1, inn_innings_number = 1, inn_batting_team = YStr ''A'',
              inn_bowling_team = YNull, total_runs = 0, total_wickets = 0,
              total_overs = Float_lit ''0.0'', total_extras = 0, is_super_over = False \<rparr>], []) \<and>
   length [YStr ''A'', YStr ''A''] = 2 \<and>
   extract_innings_and_deliveries sample_bare_innings_b 1 (YList [YNull, YStr ''B'']) =
     Inr ([\<lparr> inn_match_id = 1, inn_innings_number = 1, inn_batting_team = YStr ''B'',
              inn_bowling_team = YNull, total_runs = 0, total_wickets = 0,
              total_overs = Float_lit ''0.0'', total_extras = 0, is_super_over = False \<rparr>], []) \<and>
   length [YNull, YStr ''B''] = 2"
  by code_simp

section \<open>Innings totals\<close>

lemma delivery_loop_Nil_state:
  "delivery_loop m n bat bowl st dd [] = Inr (st', dd') \<longleftrightarrow> st' = st \<and> dd' = dd"
  by auto

text \<open>
  Claim C7. For every innings entry containing zero deliveries, the innings row produced
  for it has total runs 0, total wickets 0, total extras 0 and overs faced \<open>0.0\<close>.
\<close>

theorem empty_innings_totals:
  assumes "extract_innings_and_deliveries (YDict y) m teams = Inr (inns, dels)"
    and "py_iter (dget y ''innings'' (YList [])) = Inr es"
    and "i < length es"
    and "first_item (es ! i) = Inr (k, YDict info)"
    and "py_iter (dget info ''deliveries'' (YList [])) = Inr []"
  shows "i < length inns \<and> total_runs (inns ! i) = 0 \<and> total_wickets (inns ! i) = 0 \<and>
         total_extras (inns ! i) = 0 \<and> total_overs (inns ! i) = Float_lit ''0.0''"
proof -
  from assms(1,2) have l: "innings_loop m teams 0 [] [] es = Inr (inns, dels)"
    by (simp add: extract_innings_and_deliveries_def err_bind_def)
  from innings_loop_nth [OF l] assms(3) obtain dd dd' where
    len: "length inns = length es" and
    step: "innings_step m teams (0 + i) dd (es ! i) = Inr (inns ! i, dd')"
    by auto
  from innings_step_row [OF step] obtain new where
    n: "dd' = dd @ new" "map runs_batter new = map striker_runs (entry_deliveries (es ! i))"
       "innings_agrees (inns ! i) new"
    by blast
  have "entry_deliveries (es ! i) = []"
    using assms(4,5) by (simp add: entry_deliveries_def)
  with n(2) have "new = []" by simp
  with n(3) show ?thesis using len assms(3) by (simp add: innings_agrees_def)
qed

theorem empty_innings_totals_witness:
  "total_runs (sample_innings_rows ! 1) = 0 \<and> total_wickets (sample_innings_rows ! 1) = 0 \<and>
   total_extras (sample_innings_rows ! 1) = 0 \<and>
   total_overs (sample_innings_rows ! 1) = Float_lit ''0.0''"
proof -
  let ?info = "[(KStr ''team'', YStr ''B'')]"
  let ?es = "[YDict [(KStr ''1st innings'', YDict
           [(KStr ''team'', YStr ''A''),
            (KStr ''deliveries'', YList
              [YDict [(KStr ''0.1'', YDict
                 [(KStr ''runs'', YDict
                    [(KStr ''batsman'', YInt 4), (KStr ''extras'', YInt 0),
                     (KStr ''total'', YInt 4)])])],
               YDict [(KStr ''0.2'', YDict
                 [(KStr ''runs'', YDict
                    [(KStr ''batsman'', YInt 0), (KStr ''batter'', YInt 6),
                     (KStr ''extras'', YInt 0), (KStr ''total'', YInt 6)])])],
               YDict [(KStr ''0.3'', YDict
                 [(KStr ''runs'', YDict
                    [(KStr ''batsman'', YInt 0), (KStr ''extras'', YInt 1),
                     (KStr ''total'', YInt 0)]),
                  (KStr ''extras'', YDict [(KStr ''wides'', YInt 1)])])],
               YDict [(KStr ''0.4'', YDict
                 [(KStr ''runs'', YDict
                    [(KStr ''batsman'', YInt 0), (KStr ''extras'', YInt 0),
                     (KStr ''total'', YInt 0)]),
                  (KStr ''wicket'', YDict
                    [(KStr ''kind'', YStr ''bowled''), (KStr ''player_out'', YStr ''P'')])])]])])],
         YDict [(KStr ''2nd innings'', YDict ?info)]]"
  obtain y where y: "sample_match = YDict y"
    and es: "py_iter (dget y ''innings'' (YList [])) = Inr ?es"
    by (simp add: sample_match_def dget_def dict_get_def)
  have a: "extract_innings_and_deliveries (YDict y) 7 (YList (map YStr [''A'', ''B''])) =
      Inr (sample_innings_rows, sample_delivery_rows)"
    using sample_match_rows y by simp
  have b: "(1::nat) < length ?es" by simp
  have c: "first_item (?es ! 1) = Inr (KStr ''2nd innings'', YDict ?info)" by simp
  have d: "py_iter (dget ?info ''deliveries'' (YList [])) = Inr []"
    by (simp add: dget_def dict_get_def)
  from empty_innings_totals [OF a es b c d] show ?thesis by simp
qed

lemma extract_wicket_flag:
  assumes "extract_wicket delivery = Inr (wkt, w_type, dismissed, fld)"
  shows "wkt = (truthy (dget delivery ''wicket'' YNull) \<or> truthy (dget delivery ''wickets'' YNull))"
  using assms
  by (auto simp: extract_wicket_def Let_def err_bind_Inr py_or_def split: if_splits)

text \<open>One round of the delivery loop in terms of the entry it reads.\<close>

lemma delivery_step_source:
  assumes "delivery_step m n bat bowl st e = Inr (st', row)"
  shows "st_total_runs st' = st_total_runs st + entry_total_runs e \<and>
         st_total_extras st' = st_total_extras st + entry_extras_runs e \<and>
         st_total_wickets st' = st_total_wickets st + (if entry_has_wicket e then 1 else 0) \<and>
         parse_over_ball (entry_label e) = Inr (st_last_over st', st_last_ball st')"
proof -
  from assms obtain k delivery runs o_num b_num tr te wkt w_type dismissed fld where
    a: "first_item e = Inr (k, YDict delivery)"
       "parse_over_ball (key_str k) = Inr (o_num, b_num)"
       "dget delivery ''runs'' (YDict []) = YDict runs"
       "py_add_int (st_total_runs st) (py_or (dget runs ''total'' (YInt 0)) (YInt 0)) = Inr tr"
       "py_add_int (st_total_extras st) (py_or (dget runs ''extras'' (YInt 0)) (YInt 0)) = Inr te"
       "extract_wicket delivery = Inr (wkt, w_type, dismissed, fld)"
       "st_total_runs st' = tr" "st_total_extras st' = te"
       "st_total_wickets st' = (if wkt then st_total_wickets st + 1 else st_total_wickets st)"
       "st_last_over st' = o_num" "st_last_ball st' = b_num"
    by (auto simp: delivery_step_def err_bind_Inr Let_def as_dict_Inr)
  have d: "entry_delivery e = delivery" "entry_runs e = runs" "entry_label e = key_str k"
    using a(1,3) by (simp_all add: entry_delivery_def entry_runs_def entry_label_def)
  have "tr = st_total_runs st + entry_total_runs e"
    using py_add_int_Inr [OF a(4)] d by (simp add: entry_total_runs_def py_or_def)
  moreover have "te = st_total_extras st + entry_extras_runs e"
    using py_add_int_Inr [OF a(5)] d by (simp add: entry_extras_runs_def py_or_def)
  moreover have "wkt = entry_has_wicket e"
    using extract_wicket_flag [OF a(6)] d by (simp add: entry_has_wicket_def)
  ultimately show ?thesis using a d by simp
qed

lemma delivery_loop_source:
  "delivery_loop m n bat bowl st dd es = Inr (st', dd') \<Longrightarrow>
   st_total_runs st' = st_total_runs st + sum_list (map entry_total_runs es) \<and>
   st_total_extras st' = st_total_extras st + sum_list (map entry_extras_runs es) \<and>
   st_total_wickets st' = st_total_wickets st + int (length (filter entry_has_wicket es)) \<and>
   (es \<noteq> [] \<longrightarrow>
      parse_over_ball (entry_label (last es)) = Inr (st_last_over st', st_last_ball st'))"
proof (induction es arbitrary: st dd)
  case Nil
  then show ?case by simp
next
  case (Cons e es)
  from Cons.prems obtain st1 row where
    step: "delivery_step m n bat bowl st e = Inr (st1, row)" and
    rest: "delivery_loop m n bat bowl st1 (dd @ [row]) es = Inr (st', dd')"
    by (auto simp: err_bind_Inr)
  note s = delivery_step_source [OF step]
  note r = Cons.IH [OF rest]
  have last: "parse_over_ball (entry_label (last (e # es))) = Inr (st_last_over st', st_last_ball st')"
  proof (cases "es = []")
    case True
    with rest have "st' = st1" by simp
    with s True show ?thesis by simp
  next
    case False
    with r show ?thesis by simp
  qed
  show ?case using s r last by simp
qed

text \<open>The totals of an innings row in terms of the delivery entries of its innings entry.\<close>

lemma innings_step_source:
  assumes "innings_step m teams idx dd e = Inr (row, dd')"
    and "first_item e = Inr (k, YDict info)"
    and "py_iter (dget info ''deliveries'' (YList [])) = Inr entries"
  shows "total_runs row = sum_list (map entry_total_runs entries) \<and>
         total_wickets row = int (length (filter entry_has_wicket entries)) \<and>
         total_extras row = sum_list (map entry_extras_runs entries) \<and>
         (entries \<noteq> [] \<longrightarrow>
            (\<exists>o_num b_num. parse_over_ball (entry_label (last entries)) = Inr (o_num, b_num) \<and>
               total_overs row = Float_lit (str_int o_num @ ''.'' @ str_int b_num)))"
proof -
  from assms obtain bat bowl st overs where
    a: "delivery_loop m (idx + 1) bat bowl
          \<lparr> st_total_runs = 0, st_total_wickets = 0, st_total_extras = 0,
            st_last_over = 0, st_last_ball = 0 \<rparr> dd entries = Inr (st, dd')"
       "over_ball_float (st_last_over st) (st_last_ball st) = Inr overs"
       "total_runs row = st_total_runs st" "total_wickets row = st_total_wickets st"
       "total_extras row = st_total_extras st" "total_overs row = overs"
    by (auto simp: innings_step_def err_bind_Inr Let_def as_dict_Inr)
  have ov: "overs = Float_lit (str_int (st_last_over st) @ ''.'' @ str_int (st_last_ball st))"
    using a(2) by (auto simp: over_ball_float_def split: if_splits)
  from delivery_loop_source [OF a(1)] show ?thesis using a(3-6) ov by simp
qed

lemma str_int_1: "str_int 1 = ''1''"
  by code_simp

text \<open>
  Claim C8, as amended. For every innings entry with at least one delivery, the innings
  row produced for it records as overs faced the number written \<open><over>.<ball>\<close> with
  the over index and the ball index that the parser returns for the label of the final
  delivery processed: the label itself when it has the form \<open><int>.<int>\<close>, and
  \<open><int>.1\<close> when it has no fractional part. The overs are not recomputed from the count
  of balls. The total runs of the row are the sum of the deliveries' total runs, its
  wicket count is the number of deliveries with a recorded wicket, and its total extras
  are the sum of the deliveries' extras runs.
\<close>

theorem innings_totals:
  assumes "extract_innings_and_deliveries (YDict y) m teams = Inr (inns, dels)"
    and "py_iter (dget y ''innings'' (YList [])) = Inr es"
    and "i < length es"
    and "first_item (es ! i) = Inr (k, YDict info)"
    and "py_iter (dget info ''deliveries'' (YList [])) = Inr entries"
    and "entries \<noteq> []"
  shows "i < length inns \<and>
         total_runs (inns ! i) = sum_list (map entry_total_runs entries) \<and>
         total_wickets (inns ! i) = int (length (filter entry_has_wicket entries)) \<and>
         total_extras (inns ! i) = sum_list (map entry_extras_runs entries) \<and>
         (\<exists>o_num b_num. parse_over_ball (entry_label (last entries)) = Inr (o_num, b_num) \<and>
            total_overs (inns ! i) = Float_lit (str_int o_num @ ''.'' @ str_int b_num)) \<and>
         (entry_label (last entries) = str_int p @ ''.'' @ str_int q \<longrightarrow>
            total_overs (inns ! i) = Float_lit (entry_label (last entries))) \<and>
         (entry_label (last entries) = str_int p \<longrightarrow>
            total_overs (inns ! i) = Float_lit (str_int p @ ''.1''))"
proof -
  from assms(1,2) have l: "innings_loop m teams 0 [] [] es = Inr (inns, dels)"
    by (simp add: extract_innings_and_deliveries_def err_bind_def)
  from innings_loop_nth [OF l] assms(3) obtain dd dd' where
    len: "length inns = length es" and
    step: "innings_step m teams (0 + i) dd (es ! i) = Inr (inns ! i, dd')"
    by auto
  note s = innings_step_source [OF step assms(4,5)]
  from s assms(6) obtain o_num b_num where
    ob: "parse_over_ball (entry_label (last entries)) = Inr (o_num, b_num)"
        "total_overs (inns ! i) = Float_lit (str_int o_num @ ''.'' @ str_int b_num)"
    by blast
  have two: "total_overs (inns ! i) = Float_lit (entry_label (last entries))"
    if "entry_label (last entries) = str_int p @ ''.'' @ str_int q"
    using that ob parse_over_ball_two [of p q] by simp
  have one: "total_overs (inns ! i) = Float_lit (str_int p @ ''.1'')"
    if "entry_label (last entries) = str_int p"
    using that ob parse_over_ball_one [of p] by (simp add: str_int_1)
  show ?thesis using s ob two one len assms(3) by auto
qed

theorem innings_totals_witness:
  "total_runs (sample_innings_rows ! 0) = 10 \<and> total_wickets (sample_innings_rows ! 0) = 1 \<and>
   total_extras (sample_innings_rows ! 0) = 1 \<and>
   total_overs (sample_innings_rows ! 0) = Float_lit ''0.4''"
proof -
  define entries where "entries =
    [YDict [(KStr ''0.1'', YDict
        [(KStr ''runs'', YDict
           [(KStr ''batsman'', YInt 4), (KStr ''extras'', YInt 0), (KStr ''total'', YInt 4)])])],
      YDict [(KStr ''0.2'', YDict
        [(KStr ''runs'', YDict
           [(KStr ''batsman'', YInt 0), (KStr ''batter'', YInt 6),
            (KStr ''extras'', YInt 0), (KStr ''total'', YInt 6)])])],
      YDict [(KStr ''0.3'', YDict
        [(KStr ''runs'', YDict
           [(KStr ''batsman'', YInt 0), (KStr ''extras'', YInt 1), (KStr ''total'', YInt 0)]),
         (KStr ''extras'', YDict [(KStr ''wides'', YInt 1)])])],
      YDict [(KStr ''0.4'', YDict
        [(KStr ''runs'', YDict
           [(KStr ''batsman'', YInt 0), (KStr ''extras'', YInt 0), (KStr ''total'', YInt 0)]),
         (KStr ''wicket'', YDict
           [(KStr ''kind'', YStr ''bowled''), (KStr ''player_out'', YStr ''P'')])])]]"
  define info where "info = [(KStr ''team'', YStr ''A''), (KStr ''deliveries'', YList entries)]"
  define es where "es = [YDict [(KStr ''1st innings'', YDict info)],
              YDict [(KStr ''2nd innings'', YDict [(KStr ''team'', YStr ''B'')])]]"
  obtain y where y: "sample_match = YDict y"
    and es: "py_iter (dget y ''innings'' (YList [])) = Inr es"
    by (simp add: sample_match_def dget_def dict_get_def es_def info_def entries_def)
  have a: "extract_innings_and_deliveries (YDict y) 7 (YList (map YStr [''A'', ''B''])) =
      Inr (sample_innings_rows, sample_delivery_rows)"
    using sample_match_rows y by simp
  have b: "(0::nat) < length es" by (simp add: es_def)
  have c: "first_item (es ! 0) = Inr (KStr ''1st innings'', YDict info)" by (simp add: es_def)
  have d: "py_iter (dget info ''deliveries'' (YList [])) = Inr entries"
    by (simp add: info_def dget_def dict_get_def)
  have e: "entries \<noteq> []" by (simp add: entries_def)
  have s0: "str_int 0 = ''0''" and s4: "str_int 4 = ''4''" by code_simp+
  have lab: "entry_label (last entries) = str_int 0 @ ''.'' @ str_int 4"
    by (simp add: entries_def entry_label_def s0 s4)
  have lab': "entry_label (last entries) = ''0.4''"
    by (simp add: entries_def entry_label_def)
  have sums: "sum_list (map entry_total_runs entries) = 10"
    "int (length (filter entry_has_wicket entries)) = 1"
    "sum_list (map entry_extras_runs entries) = 1"
    by (simp_all add: entries_def entry_total_runs_def entry_extras_runs_def
        entry_has_wicket_def entry_runs_def entry_delivery_def dget_def dict_get_def)
  from innings_totals [OF a es b c d e, of 0 4] lab
  have "total_runs (sample_innings_rows ! 0) = sum_list (map entry_total_runs entries)"
    "total_wickets (sample_innings_rows ! 0) = int (length (filter entry_has_wicket entries))"
    "total_extras (sample_innings_rows ! 0) = sum_list (map entry_extras_runs entries)"
    "total_overs (sample_innings_rows ! 0) = Float_lit (entry_label (last entries))"
    by blast+
  then show ?thesis by (simp only: sums lab')
qed

text \<open>
  The claim as stated fails for a label without a ball index: the overs faced are built
  from the parsed pair, in which the ball index defaults to 1, so the label \<open>19\<close> of the
  only delivery of \<open>sample_short_label\<close> gives the number 19.1, not 19.
\<close>

theorem overs_faced_not_verbatim_counterexample:
  "\<not> isl (extract_innings_and_deliveries sample_short_label 1 (YList [])) \<and>
   map entry_label (delivery_entries sample_short_label) = [''19''] \<and>
   parse_over_ball ''19'' = Inr (19, 1) \<and>
   map total_overs (fst (projr (extract_innings_and_deliveries sample_short_label 1 (YList []))))
     = [Float_lit ''19.1''] \<and>
   Float_lit ''19.1'' \<noteq> Float_lit ''19''"
  by code_simp

section \<open>Striker's runs\<close>

text \<open>
  Claim C10. The striker's runs of the extracted deliveries are, delivery by delivery in
  source order, the first non-zero value among the field \<open>batsman\<close> and then the field
  \<open>batter\<close> of the run breakdown, and 0 when both are absent or zero. In particular, where
  \<open>batsman\<close> is recorded as 0 and \<open>batter\<close> carries a non-zero value, the value of
  \<open>batter\<close> is used.
\<close>

theorem striker_runs_extracted:
  assumes "extract_innings_and_deliveries y m teams = Inr (inns, dels)"
  shows "map runs_batter dels = map striker_runs (delivery_entries y) \<and>
         (dict_find runs (KStr ''batsman'') = Some (YInt 0) \<and>
          dict_find runs (KStr ''batter'') = Some (YInt b) \<and> b \<noteq> 0 \<longrightarrow>
            striker_runs (YDict [(k, YDict [(KStr ''runs'', YDict runs)])]) = YInt b) \<and>
         (dict_find runs (KStr ''batsman'') \<in> {None, Some (YInt 0)} \<and>
          dict_find runs (KStr ''batter'') \<in> {None, Some (YInt 0)} \<longrightarrow>
            striker_runs (YDict [(k, YDict [(KStr ''runs'', YDict runs)])]) = YInt 0)"
proof -
  from extract_loop [OF assms] obtain yd es where
    y: "y = YDict yd" "py_iter (dget yd ''innings'' (YList [])) = Inr es" and
    l: "innings_loop m teams 0 [] [] es = Inr (inns, dels)" by blast
  from innings_loop_runs [OF l] have
    "map runs_batter dels = map striker_runs (concat (map entry_deliveries es))" by auto
  then have 1: "map runs_batter dels = map striker_runs (delivery_entries y)"
    using y by (simp add: delivery_entries_def)
  show ?thesis using 1
    by (auto simp: striker_runs_def dget_def dict_get_def)
qed

theorem striker_runs_extracted_witness:
  "map runs_batter sample_delivery_rows = [YInt 4, YInt 6, YInt 0, YInt 0] \<and>
   striker_runs (YDict [(KStr ''0.2'', YDict [(KStr ''runs'',
      YDict [(KStr ''batsman'', YInt 0), (KStr ''batter'', YInt 6)])])]) = YInt 6 \<and>
   striker_runs (YDict [(KStr ''0.3'', YDict [(KStr ''runs'',
      YDict [(KStr ''batsman'', YInt 0)])])]) = YInt 0"
proof -
  have e: "map striker_runs (delivery_entries sample_match) = [YInt 4, YInt 6, YInt 0, YInt 0]"
    by code_simp
  have f: "dict_find [(KStr ''batsman'', YInt 0), (KStr ''batter'', YInt 6)] (KStr ''batsman'')
             = Some (YInt 0) \<and>
           dict_find [(KStr ''batsman'', YInt 0), (KStr ''batter'', YInt 6)] (KStr ''batter'')
             = Some (YInt 6) \<and> (6::int) \<noteq> 0"
    by simp
  have g: "dict_find [(KStr ''batsman'', YInt 0)] (KStr ''batsman'') \<in> {None, Some (YInt 0)} \<and>
           dict_find [(KStr ''batsman'', YInt 0)] (KStr ''batter'') \<in> {None, Some (YInt 0)}"
    by simp
  from striker_runs_extracted [OF sample_match_rows,
      of "[(KStr ''batsman'', YInt 0), (KStr ''batter'', YInt 6)]" 6 "KStr ''0.2''"]
    striker_runs_extracted [OF sample_match_rows, of "[(KStr ''batsman'', YInt 0)]" 0 "KStr ''0.3''"]
    e f g
  show ?thesis by simp
qed

section \<open>Load orchestrator\<close>

lemma extract_match_data_Inr:
  assumes "extract_match_data yaml_data filename = Inr md"
  shows "source_file md = filename \<and> (\<exists>y. yaml_data = YDict y)"
  using assms
  by (auto simp: extract_match_data_def err_bind_Inr Let_def as_dict_Inr)

lemma insert_match_existing:
  assumes "find (\<lambda>(i, m). source_file m = source_file md) (matches d) = Some existing"
  shows "insert_match d md = (None, d)"
  using assms by (simp add: insert_match_def)

text \<open>A record whose source file is in the store is not written again.\<close>

lemma process_existing:
  assumes "extract_match_data yaml_data filename = Inr md"
    and "find (\<lambda>(i, m). source_file m = filename) (matches d) = Some existing"
  shows "process_yaml_file d filename (Inr yaml_data) = (Inr False, d)"
proof -
  from extract_match_data_Inr [OF assms(1)] have sf: "source_file md = filename" by simp
  have "insert_match d md = (None, d)"
    using assms(2) sf by (intro insert_match_existing [of md d existing]) simp
  then show ?thesis using assms(1) by (simp add: process_yaml_file_def)
qed

text \<open>
  Claim C5. Re-processing a source record whose source file is already in the store, the
  match facts being extracted before the store is consulted, leaves the store as it is
  (so the counts of matches, innings and deliveries are unchanged and no child row is
  inserted), and the record is counted as skipped: the counts of successes and of
  failures stay as they are.
\<close>

theorem reprocessing_is_skipped:
  assumes "extract_match_data yaml_data filename = Inr md"
    and "find (\<lambda>(i, m). source_file m = filename) (matches (working cn)) = Some existing"
    and "main_step (c, cn) (filename, Inr yaml_data) = (c', cn')"
  shows "cn' = cn \<and>
         length (matches (working cn')) = length (matches (working cn)) \<and>
         length (innings (working cn')) = length (innings (working cn)) \<and>
         length (ball_by_ball (working cn')) = length (ball_by_ball (working cn)) \<and>
         skip_count c' = skip_count c + 1 \<and>
         success_count c' = success_count c \<and>
         error_count c' = error_count c"
proof -
  have "process_yaml_file (working cn) filename (Inr yaml_data) = (Inr False, working cn)"
    using assms(1,2) by (rule process_existing)
  then have "main_step (c, cn) (filename, Inr yaml_data) =
      (c\<lparr> skip_count := skip_count c + 1 \<rparr>, cn)"
    by (simp add: main_step_def)
  with assms(3) show ?thesis by auto
qed

lemma sample_match_facts: "extract_match_data sample_match ''m1.yaml'' = Inr sample_match_data"
  by code_simp

theorem reprocessing_is_skipped_witness:
  "main_step (no_counts, sample_conn) (''m1.yaml'', Inr sample_match) =
     (\<lparr> success_count = 0, skip_count = 1, error_count = 0 \<rparr>, sample_conn) \<and>
   length (matches (working sample_conn)) = 1 \<and>
   length (innings (working sample_conn)) = 1 \<and>
   length (ball_by_ball (working sample_conn)) = 1"
proof -
  have a: "find (\<lambda>(i, m). source_file m = ''m1.yaml'') (matches (working sample_conn)) =
      Some (7, sample_match_data)"
    by (simp add: sample_conn_def sample_db_def sample_match_data_def)
  obtain c' cn' where s:
    "main_step (no_counts, sample_conn) (''m1.yaml'', Inr sample_match) = (c', cn')"
    by (cases "main_step (no_counts, sample_conn) (''m1.yaml'', Inr sample_match)")
  from reprocessing_is_skipped [OF sample_match_facts a s]
  have "cn' = sample_conn" "skip_count c' = 1" "success_count c' = 0" "error_count c' = 0"
    by (simp_all add: no_counts_def)
  then have "c' = \<lparr> success_count = 0, skip_count = 1, error_count = 0 \<rparr>" by (cases c') simp
  with s \<open>cn' = sample_conn\<close> show ?thesis
    by (simp add: sample_conn_def sample_db_def)
qed

text \<open>
  Claim C6 says that an empty or unparseable source record is counted as failed. The
  script returns \<open>False\<close> for both, as it does for a record already ingested, and the loop
  in \<open>main\<close> adds every \<open>False\<close> to the count it reports as "Skipped (already exists)";
  the count it reports as "Errors" stays as it is. The loop goes on with the next file
  in either case.
\<close>

theorem empty_or_unparseable_is_counted_skipped:
  "main_step (c, cn) (filename, Inr YNull) = (c\<lparr> skip_count := skip_count c + 1 \<rparr>, cn) \<and>
   main_step (c, cn) (filename, Inl YAMLError) = (c\<lparr> skip_count := skip_count c + 1 \<rparr>, cn) \<and>
   main_loop (no_counts, sample_conn)
       [(''empty.yaml'', Inr YNull), (''broken.yaml'', Inl YAMLError), (''m1.yaml'', Inr sample_match)] =
     (\<lparr> success_count = 0, skip_count = 3, error_count = 0 \<rparr>, sample_conn)"
proof -
  have 1: "\<And>c cn filename.
      main_step (c, cn) (filename, Inr YNull) = (c\<lparr> skip_count := skip_count c + 1 \<rparr>, cn)"
    by (simp add: main_step_def process_yaml_file_def)
  have 2: "\<And>c cn filename.
      main_step (c, cn) (filename, Inl YAMLError) = (c\<lparr> skip_count := skip_count c + 1 \<rparr>, cn)"
    by (simp add: main_step_def process_yaml_file_def)
  have a: "find (\<lambda>(i, m). source_file m = ''m1.yaml'') (matches (working sample_conn)) =
      Some (7, sample_match_data)"
    by (simp add: sample_conn_def sample_db_def sample_match_data_def)
  have 3: "\<And>c. main_step (c, sample_conn) (''m1.yaml'', Inr sample_match) =
      (c\<lparr> skip_count := skip_count c + 1 \<rparr>, sample_conn)"
    using process_existing [OF sample_match_facts a] by (simp add: main_step_def)
  show ?thesis by (simp add: 1 2 3 no_counts_def)
qed

end
